theory Spec2Isabelle
  imports Main "HOL-Library.Word" "HOL-Library.Sublist"
begin

section \<open>JavaScript strings\<close>

text \<open>
  A JavaScript string is a sequence of 16-bit code units. String literals of the source
  are ASCII; \<open>js\<close> embeds such a literal.
\<close>

type_synonym jschar = "16 word"
type_synonym jsstring = "jschar list"

definition js :: "string \<Rightarrow> jsstring" where
  "js s = map of_char s"

text \<open>\<^verbatim>\<open>String.prototype.startsWith\<close>, \<^verbatim>\<open>includes\<close> and \<^verbatim>\<open>endsWith\<close>, each called
  with the search string only.\<close>

fun startsWith :: "'a list \<Rightarrow> 'a list \<Rightarrow> bool" where
  "startsWith s [] = True"
| "startsWith [] (p # ps) = False"
| "startsWith (c # cs) (p # ps) = (c = p \<and> startsWith cs ps)"

fun includes_str :: "'a list \<Rightarrow> 'a list \<Rightarrow> bool" where
  "includes_str [] sub = (sub = [])"
| "includes_str (c # cs) sub = (startsWith (c # cs) sub \<or> includes_str cs sub)"

definition endsWith :: "'a list \<Rightarrow> 'a list \<Rightarrow> bool" where
  "endsWith s p = startsWith (rev s) (rev p)"

text \<open>
  The character classes of the regular expressions. Without the \<^verbatim>\<open>u\<close> flag, \<^verbatim>\<open>\w\<close> is
  \<^verbatim>\<open>[A-Za-z0-9_]\<close> and the \<^verbatim>\<open>i\<close> flag adds nothing to it; \<^verbatim>\<open>\s\<close> is ECMAScript's
  WhiteSpace and LineTerminator: TAB, LF, VT, FF, CR, SPACE, NBSP, U+1680, U+2000..U+200A,
  U+2028, U+2029, U+202F, U+205F, U+3000 and U+FEFF.
\<close>

definition isWordChar :: "jschar \<Rightarrow> bool" where
  "isWordChar c \<longleftrightarrow>
     (0x41 \<le> c \<and> c \<le> 0x5A) \<or> (0x61 \<le> c \<and> c \<le> 0x7A) \<or>
     (0x30 \<le> c \<and> c \<le> 0x39) \<or> c = 0x5F"

definition isWhiteSpace :: "jschar \<Rightarrow> bool" where
  "isWhiteSpace c \<longleftrightarrow>
     c = 0x09 \<or> c = 0x0A \<or> c = 0x0B \<or> c = 0x0C \<or> c = 0x0D \<or> c = 0x20 \<or> c = 0xA0 \<or>
     c = 0x1680 \<or> (0x2000 \<le> c \<and> c \<le> 0x200A) \<or> c = 0x2028 \<or> c = 0x2029 \<or>
     c = 0x202F \<or> c = 0x205F \<or> c = 0x3000 \<or> c = 0xFEFF"

section \<open>sanitizeFilename\<close>

text \<open>
  \<^verbatim>\<open>filename.replace(/[^\w\s.-]/gi, '').replace(/\s+/g, '_')\<close>:
  the first replacement deletes every code unit outside the class; the second replaces
  each maximal run of whitespace by one underscore.
\<close>

definition inSanitizeClass :: "jschar \<Rightarrow> bool" where
  "inSanitizeClass c \<longleftrightarrow> isWordChar c \<or> isWhiteSpace c \<or> c = 0x2E \<or> c = 0x2D"

definition removeDisallowed :: "jsstring \<Rightarrow> jsstring" where
  "removeDisallowed s = filter inSanitizeClass s"

function replaceWhitespaceRuns :: "jsstring \<Rightarrow> jsstring" where
  "replaceWhitespaceRuns [] = []"
| "replaceWhitespaceRuns (c # cs) =
     (if isWhiteSpace c then 0x5F # replaceWhitespaceRuns (dropWhile isWhiteSpace cs)
      else c # replaceWhitespaceRuns cs)"
  by pat_completeness auto
termination
  by (relation "measure length") (auto simp: length_dropWhile_le le_imp_less_Suc)

definition sanitizeFilename :: "jsstring \<Rightarrow> jsstring" where
  "sanitizeFilename filename = replaceWhitespaceRuns (removeDisallowed filename)"

text \<open>\<^verbatim>\<open>String.prototype.trim\<close> strips WhiteSpace and LineTerminator code units from both
  ends; \<^verbatim>\<open>split('\n')\<close> cuts at every line feed and always yields at least one piece.\<close>

definition trim :: "jsstring \<Rightarrow> jsstring" where
  "trim s = rev (dropWhile isWhiteSpace (rev (dropWhile isWhiteSpace s)))"

fun split_str :: "'a \<Rightarrow> 'a list \<Rightarrow> 'a list list" where
  "split_str sep [] = [[]]"
| "split_str sep (c # cs) =
     (if c = sep then [] # split_str sep cs
      else (c # hd (split_str sep cs)) # tl (split_str sep cs))"

section \<open>JSON values\<close>

text \<open>
  What \<^verbatim>\<open>JSON.parse\<close> yields, and \<^verbatim>\<open>undefined\<close> for a property that is not there.
  Numbers are carried as integers: the code only ever tests one for truthiness. An object
  lists each key once, as \<^verbatim>\<open>JSON.parse\<close> builds it.
\<close>

datatype jsval =
    JUndefined
  | JNull
  | JBool bool
  | JNum int
  | JStr jsstring
  | JArr "jsval list"
  | JObj "(jsstring \<times> jsval) list"

fun truthy :: "jsval \<Rightarrow> bool" where
  "truthy JUndefined = False"
| "truthy JNull = False"
| "truthy (JBool b) = b"
| "truthy (JNum n) = (n \<noteq> 0)"
| "truthy (JStr s) = (s \<noteq> [])"
| "truthy (JArr vs) = True"
| "truthy (JObj fs) = True"

text \<open>Reading a property \<^verbatim>\<open>v.name\<close> for one of the names the code reads (\<^verbatim>\<open>title\<close>,
  \<^verbatim>\<open>duration\<close>, \<^verbatim>\<open>thumbnail\<close>, \<^verbatim>\<open>uploader\<close>, \<^verbatim>\<open>view_count\<close>): a TypeError on
  \<^verbatim>\<open>null\<close> and \<^verbatim>\<open>undefined\<close> (\<open>Inl\<close> carries V8's message), \<^verbatim>\<open>undefined\<close> on every
  other value that is not an object holding the key.\<close>

definition cannotReadProperties :: "string \<Rightarrow> jsstring \<Rightarrow> jsstring" where
  \<open>cannotReadProperties what name =
     js ''Cannot read properties of '' @ js what @ js '' (reading '' @ [0x27] @ name @ [0x27] @ js '')''\<close>

fun propOf :: "jsval \<Rightarrow> jsstring \<Rightarrow> jsval" where
  "propOf (JObj fs) name = (case map_of fs name of None \<Rightarrow> JUndefined | Some v \<Rightarrow> v)"
| "propOf v name = JUndefined"

fun getProp :: "jsval \<Rightarrow> jsstring \<Rightarrow> jsstring + jsval" where
  "getProp JUndefined name = Inl (cannotReadProperties ''undefined'' name)"
| "getProp JNull name = Inl (cannotReadProperties ''null'' name)"
| "getProp v name = Inr (propOf v name)"

section \<open>The outside world\<close>

text \<open>
  \<^verbatim>\<open>child_process.exec\<close> either fails with an error carrying a message or yields the
  captured output. One \<open>world\<close> is what one call of a lookup or handler sees of the
  outside: the two readings of \<^verbatim>\<open>Date.now()\<close> (at the cache check and when the entry
  is stored), the outcome \<^verbatim>\<open>execPromise\<close> has for a command with its \<^verbatim>\<open>maxBuffer\<close>
  and \<^verbatim>\<open>timeout\<close> options, \<^verbatim>\<open>JSON.parse\<close> (\<open>Inl\<close> is the SyntaxError's message),
  \<^verbatim>\<open>fs.existsSync\<close>, \<^verbatim>\<open>path.join\<close> and the downloads directory.
\<close>

datatype exec_outcome =
    ExecOk (stdout: jsstring) (stderr: jsstring)
  | ExecError (message: jsstring)

record world =
  now_check :: int
  now_store :: int
  execPromise :: "jsstring \<Rightarrow> nat \<Rightarrow> nat \<Rightarrow> exec_outcome"
  JSON_parse :: "jsstring \<Rightarrow> jsstring + jsval"
  existsSync :: "jsstring \<Rightarrow> bool"
  path_join :: "jsstring \<Rightarrow> jsstring \<Rightarrow> jsstring"
  downloadsDir :: jsstring

text \<open>What a call does to the outside, in order: an awaited \<^verbatim>\<open>execPromise\<close> (command,
  maxBuffer, timeout), an \<^verbatim>\<open>exec\<close> with a callback (command, maxBuffer when given),
  \<^verbatim>\<open>fs.mkdirSync\<close>, and a \<^verbatim>\<open>setTimeout\<close> that will kill the child (delay in ms).\<close>

datatype effect =
    ExecPromise jsstring nat nat
  | ExecCallback jsstring "nat option"
  | MkdirSync jsstring
  | KillTimer nat

section \<open>The video info cache\<close>

record videoInfo =
  title :: jsval
  duration :: jsval
  thumbnail :: jsval
  uploader :: jsval
  view_count :: jsval

record cacheEntry =
  data :: videoInfo
  timestamp :: int

text \<open>
  \<^verbatim>\<open>videoInfoCache = new Map()\<close>: the entries in insertion order. \<^verbatim>\<open>Map.prototype.get\<close>
  finds the entry of a key; \<^verbatim>\<open>Map.prototype.set\<close> replaces the value of an entry whose
  key is already there and appends a new entry otherwise.
\<close>

type_synonym videoInfoCache = "(jsstring \<times> cacheEntry) list"

definition Map_get :: "('k \<times> 'v) list \<Rightarrow> 'k \<Rightarrow> 'v option" where
  "Map_get m k = map_of m k"

fun Map_set :: "('k \<times> 'v) list \<Rightarrow> 'k \<Rightarrow> 'v \<Rightarrow> ('k \<times> 'v) list" where
  "Map_set [] k v = [(k, v)]"
| "Map_set ((k', v') # m) k v = (if k' = k then (k, v) # m else (k', v') # Map_set m k v)"

definition CACHE_DURATION :: int where
  "CACHE_DURATION = 5 * 60 * 1000"

section \<open>getVideoInfo\<close>

definition isPlaylistUrl :: "jsstring \<Rightarrow> bool" where
  "isPlaylistUrl u \<longleftrightarrow> includes_str u (js ''playlist'') \<or> includes_str u (js ''list='')"

definition videoInfoCommand :: "jsstring \<Rightarrow> jsstring" where
  \<open>videoInfoCommand u = js ''yt-dlp --dump-json --no-warnings --no-playlist "'' @ u @ js ''"''\<close>

text \<open>From the captured output to the payload: the part of the \<^verbatim>\<open>try\<close> block after
  \<^verbatim>\<open>execPromise\<close> has returned; \<open>Inl\<close> is the message of the error thrown.\<close>

definition getVideoInfo_parse :: "world \<Rightarrow> jsstring \<Rightarrow> jsstring + videoInfo" where
  "getVideoInfo_parse w out =
     (if out = [] \<or> trim out = [] then Inl (js ''No output from yt-dlp'')
      else
        let lines = filter (\<lambda>line. trim line \<noteq> []) (split_str 0x0A (trim out))
        in (case JSON_parse w (if length lines > 1 then hd lines else trim out) of
              Inl m \<Rightarrow> Inl m
            | Inr info \<Rightarrow>
                (case getProp info (js ''title'') of
                   Inl m \<Rightarrow> Inl m
                 | Inr t \<Rightarrow>
                     if \<not> truthy t then Inl (js ''Invalid video info - no title found'')
                     else Inr \<lparr>title = t,
                               duration = propOf info (js ''duration''),
                               thumbnail = propOf info (js ''thumbnail''),
                               uploader = propOf info (js ''uploader''),
                               view_count = propOf info (js ''view_count'')\<rparr>)))"

text \<open>The \<^verbatim>\<open>try\<close> block after the cache check: the playlist test, the command, the
  parse, and the store into the cache.\<close>

definition getVideoInfo_fetch ::
  "world \<Rightarrow> videoInfoCache \<Rightarrow> jsstring \<Rightarrow> (jsstring + videoInfo) \<times> videoInfoCache \<times> effect list" where
  "getVideoInfo_fetch w cache u =
     (if isPlaylistUrl u then
        (Inl (js ''This is a playlist URL. Please use the playlist download option instead.''),
         cache, [])
      else
        let command = videoInfoCommand u;
            fx = [ExecPromise command (1024 * 1024 * 10) 30000]
        in (case execPromise w command (1024 * 1024 * 10) 30000 of
              ExecError m \<Rightarrow> (Inl m, cache, fx)
            | ExecOk out err \<Rightarrow>
                (case getVideoInfo_parse w out of
                   Inl m \<Rightarrow> (Inl m, cache, fx)
                 | Inr vi \<Rightarrow>
                     (Inr vi, Map_set cache u \<lparr>data = vi, timestamp = now_store w\<rparr>, fx))))"

text \<open>The \<^verbatim>\<open>catch\<close> block: the message of the error it throws, from the caught one.\<close>

definition getVideoInfo_catch :: "jsstring \<Rightarrow> jsstring" where
  \<open>getVideoInfo_catch m =
     (if includes_str m (js ''playlist URL'') then
        js ''This is a playlist URL. Please select "Entire Playlist" as download type.''
      else if includes_str m (js ''maxBuffer'') then
        js ''Video info too large. Try a different video or check if it's a very long video.''
      else if includes_str m (js ''No output from yt-dlp'') then
        js ''yt-dlp failed to get video information. Please check if the URL is valid.''
      else if includes_str m (js ''Invalid video info'') then
        js ''Could not parse video information. The video might be private or unavailable.''
      else if includes_str m (js ''JSON'') then
        js ''Failed to parse video information. The video might be restricted or unavailable.''
      else js ''Failed to get video info: '' @ m)\<close>

definition getVideoInfo ::
  "world \<Rightarrow> videoInfoCache \<Rightarrow> jsstring \<Rightarrow> (jsstring + videoInfo) \<times> videoInfoCache \<times> effect list" where
  "getVideoInfo w cache u =
     (case Map_get cache u of
        Some cachedInfo \<Rightarrow>
          if now_check w - timestamp cachedInfo < CACHE_DURATION then (Inr (data cachedInfo), cache, [])
          else (case getVideoInfo_fetch w cache u of
                  (Inl m, c, fx) \<Rightarrow> (Inl (getVideoInfo_catch m), c, fx)
                | (Inr vi, c, fx) \<Rightarrow> (Inr vi, c, fx))
      | None \<Rightarrow>
          (case getVideoInfo_fetch w cache u of
             (Inl m, c, fx) \<Rightarrow> (Inl (getVideoInfo_catch m), c, fx)
           | (Inr vi, c, fx) \<Rightarrow> (Inr vi, c, fx)))"

text \<open>
  Calls one after the other, each run to its end before the next starts, from a given
  cache: the cache they leave. The cache of a running server is \<open>afterLookups calls []\<close>
  for the calls made so far, since nothing else writes \<^verbatim>\<open>videoInfoCache\<close>. Calls that
  overlap at their \<^verbatim>\<open>await\<close> write the cache one after the other too, each with a
  \<^verbatim>\<open>set\<close> of its own URL, which is what successive calls with suitable clocks do.
\<close>

fun afterLookups :: "(world \<times> jsstring) list \<Rightarrow> videoInfoCache \<Rightarrow> videoInfoCache" where
  "afterLookups [] cache = cache"
| "afterLookups ((w, u) # calls) cache = afterLookups calls (fst (snd (getVideoInfo w cache u)))"

section \<open>getPlaylistInfo\<close>

record playlistInfo =
  pl_title :: jsstring
  entries :: "jsval list"

definition playlistInfoCommand :: "jsstring \<Rightarrow> jsstring" where
  \<open>playlistInfoCommand u =
     js ''yt-dlp --dump-json --flat-playlist --no-warnings "'' @ u @ js ''"''\<close>

definition playlistTitleCommand :: "jsstring \<Rightarrow> jsstring" where
  \<open>playlistTitleCommand u =
     js ''yt-dlp --get-filename -o "%(playlist_title)s" --no-warnings "'' @ u @ js ''"''\<close>

text \<open>\<^verbatim>\<open>lines.map(...)\<close> with the inner \<^verbatim>\<open>try\<close>, then \<^verbatim>\<open>filter(entry => entry !== null)\<close>:
  a line that does not parse, or parses to \<^verbatim>\<open>null\<close>, is dropped.\<close>

definition parsePlaylistEntries :: "world \<Rightarrow> jsstring list \<Rightarrow> jsval list" where
  "parsePlaylistEntries w lines =
     List.map_filter
       (\<lambda>line. case JSON_parse w line of
                  Inl m \<Rightarrow> None
                | Inr v \<Rightarrow> if v = JNull then None else Some v)
       lines"

definition getPlaylistInfo_title :: "world \<Rightarrow> jsstring \<Rightarrow> jsval list \<Rightarrow> effect list \<Rightarrow>
    (jsstring + playlistInfo) \<times> effect list" where
  "getPlaylistInfo_title w u es fx =
     (let titleCommand = playlistTitleCommand u;
          fx' = fx @ [ExecPromise titleCommand (1024 * 1024 * 2) 15000]
      in (case execPromise w titleCommand (1024 * 1024 * 2) 15000 of
            ExecError m \<Rightarrow> (Inl m, fx')
          | ExecOk titleStdout err \<Rightarrow>
              let playlistTitle = hd (split_str 0x0A (trim titleStdout))
              in (Inr \<lparr>pl_title = (if playlistTitle = [] then js ''YouTube Playlist''
                                     else playlistTitle),
                       entries = es\<rparr>, fx')))"

definition getPlaylistInfo_try :: "world \<Rightarrow> jsstring \<Rightarrow> (jsstring + playlistInfo) \<times> effect list" where
  "getPlaylistInfo_try w u =
     (let command = playlistInfoCommand u;
          fx = [ExecPromise command (1024 * 1024 * 20) 30000]
      in (case execPromise w command (1024 * 1024 * 20) 30000 of
            ExecError m \<Rightarrow> (Inl m, fx)
          | ExecOk out err \<Rightarrow>
              if out = [] \<or> trim out = [] then
                (Inl (js ''No output from yt-dlp for playlist''), fx)
              else
                let lines = filter (\<lambda>line. trim line \<noteq> []) (split_str 0x0A (trim out))
                in if length lines = 0 then (Inl (js ''No playlist entries found''), fx)
                   else
                     let es = parsePlaylistEntries w lines
                     in if length es = 0 then (Inl (js ''No valid playlist entries found''), fx)
                        else getPlaylistInfo_title w u es fx))"

definition getPlaylistInfo_catch :: "jsstring \<Rightarrow> jsstring" where
  \<open>getPlaylistInfo_catch m =
     (if includes_str m (js ''maxBuffer'') then
        js ''Playlist too large. Try a smaller playlist or individual videos.''
      else if includes_str m (js ''No output from yt-dlp'') then
        js ''yt-dlp failed to get playlist information. Please check if the URL is valid.''
      else if includes_str m (js ''No playlist entries'') then
        js ''No videos found in playlist. The playlist might be private or empty.''
      else if includes_str m (js ''No valid playlist entries'') then
        js ''Could not parse playlist information. The playlist might be restricted or unavailable.''
      else js ''Failed to get playlist info: '' @ m)\<close>

definition getPlaylistInfo :: "world \<Rightarrow> jsstring \<Rightarrow> (jsstring + playlistInfo) \<times> effect list" where
  "getPlaylistInfo w u =
     (case getPlaylistInfo_try w u of
        (Inl m, fx) \<Rightarrow> (Inl (getPlaylistInfo_catch m), fx)
      | (Inr info, fx) \<Rightarrow> (Inr info, fx))"

section \<open>Quality selectors\<close>

text \<open>The chain of comparisons in the \<^verbatim>\<open>/api/download/video\<close> handler.\<close>

definition formatSelector :: "jsstring \<Rightarrow> jsstring" where
  "formatSelector quality =
     (if quality = js ''360p'' \<or> quality = js ''240p'' \<or> quality = js ''144p'' then js ''18''
      else if quality = js ''4k'' then js ''313+140/401+140/bestvideo[height<=2160]+bestaudio''
      else if quality = js ''1440p'' then js ''271+140/400+140/bestvideo[height<=1440]+bestaudio''
      else if quality = js ''1080p'' then
        js ''137+140/248+140/399+140/bestvideo[height<=1080]+bestaudio''
      else if quality = js ''720p'' then
        js ''136+140/247+140/398+140/bestvideo[height<=720]+bestaudio''
      else if quality = js ''480p'' then
        js ''135+140/244+140/397+140/bestvideo[height<=480]+bestaudio''
      else if quality = js ''highest'' then
        js ''136+140/247+140/398+140/bestvideo[height<=720]+bestaudio''
      else js ''136+140/247+140/398+140/bestvideo[height<=720]+bestaudio'')"

text \<open>The same chain as written in \<^verbatim>\<open>handleVideoDownload\<close>.\<close>

definition formatSelector_handleVideoDownload :: "jsstring \<Rightarrow> jsstring" where
  "formatSelector_handleVideoDownload quality =
     (if quality = js ''360p'' \<or> quality = js ''240p'' \<or> quality = js ''144p'' then js ''18''
      else if quality = js ''4k'' then js ''313+140/401+140/bestvideo[height<=2160]+bestaudio''
      else if quality = js ''1440p'' then js ''271+140/400+140/bestvideo[height<=1440]+bestaudio''
      else if quality = js ''1080p'' then
        js ''137+140/248+140/399+140/bestvideo[height<=1080]+bestaudio''
      else if quality = js ''720p'' then
        js ''136+140/247+140/398+140/bestvideo[height<=720]+bestaudio''
      else if quality = js ''480p'' then
        js ''135+140/244+140/397+140/bestvideo[height<=480]+bestaudio''
      else if quality = js ''highest'' then
        js ''136+140/247+140/398+140/bestvideo[height<=720]+bestaudio''
      else js ''136+140/247+140/398+140/bestvideo[height<=720]+bestaudio'')"

text \<open>The same chain as written in \<^verbatim>\<open>handlePlaylistDownload\<close>.\<close>

definition formatSelector_handlePlaylistDownload :: "jsstring \<Rightarrow> jsstring" where
  "formatSelector_handlePlaylistDownload quality =
     (if quality = js ''360p'' \<or> quality = js ''240p'' \<or> quality = js ''144p'' then js ''18''
      else if quality = js ''4k'' then js ''313+140/401+140/bestvideo[height<=2160]+bestaudio''
      else if quality = js ''1440p'' then js ''271+140/400+140/bestvideo[height<=1440]+bestaudio''
      else if quality = js ''1080p'' then
        js ''137+140/248+140/399+140/bestvideo[height<=1080]+bestaudio''
      else if quality = js ''720p'' then
        js ''136+140/247+140/398+140/bestvideo[height<=720]+bestaudio''
      else if quality = js ''480p'' then
        js ''135+140/244+140/397+140/bestvideo[height<=480]+bestaudio''
      else if quality = js ''highest'' then
        js ''136+140/247+140/398+140/bestvideo[height<=720]+bestaudio''
      else js ''136+140/247+140/398+140/bestvideo[height<=720]+bestaudio'')"

text \<open>The chain of the \<^verbatim>\<open>/api/download/playlist\<close> route, which starts from its own default.\<close>

definition formatSelector_playlistRoute :: "jsstring \<Rightarrow> jsstring" where
  "formatSelector_playlistRoute quality =
     (if quality = js ''4k'' then
        js ''bestvideo[height<=2160][ext=mp4]+bestaudio[ext=m4a]/bestvideo[height<=2160]+bestaudio/best[height<=2160]''
      else if quality = js ''1440p'' then
        js ''bestvideo[height<=1440][ext=mp4]+bestaudio[ext=m4a]/bestvideo[height<=1440]+bestaudio/best[height<=1440]''
      else if quality = js ''1080p'' then
        js ''bestvideo[height<=1080][ext=mp4]+bestaudio[ext=m4a]/bestvideo[height<=1080]+bestaudio/best[height<=1080]''
      else if quality = js ''720p'' then
        js ''bestvideo[height<=720][ext=mp4]+bestaudio[ext=m4a]/bestvideo[height<=720]+bestaudio/best[height<=720]''
      else if quality = js ''480p'' then
        js ''bestvideo[height<=480][ext=mp4]+bestaudio[ext=m4a]/bestvideo[height<=480]+bestaudio/best[height<=480]''
      else if quality = js ''360p'' then
        js ''bestvideo[height<=360][ext=mp4]+bestaudio[ext=m4a]/bestvideo[height<=360]+bestaudio/best[height<=360]''
      else if quality = js ''highest'' then
        js ''bestvideo[ext=mp4]+bestaudio[ext=m4a]/bestvideo+bestaudio/best''
      else js ''best[ext=mp4]/best'')"

text \<open>The selectors the chain of \<^verbatim>\<open>/api/download/video\<close> compares against.\<close>

definition recognizedQualities :: "jsstring list" where
  "recognizedQualities =
     [js ''144p'', js ''240p'', js ''360p'', js ''480p'', js ''720p'', js ''1080p'',
      js ''1440p'', js ''4k'', js ''highest'']"

section \<open>Requests, responses and the handlers\<close>

text \<open>
  The JSON body of a request, \<^verbatim>\<open>{ url: string, quality?: string, type?: string }\<close>;
  a field that is not in the body is \<open>None\<close>.
\<close>

record requestBody =
  body_url :: "jsstring option"
  body_quality :: "jsstring option"
  body_type :: "jsstring option"


text \<open>A destructuring default, \<^verbatim>\<open>{ quality = 'highest' }\<close>.\<close>

definition orDefault :: "jsstring option \<Rightarrow> jsstring \<Rightarrow> jsstring" where
  "orDefault field dflt = (case field of None \<Rightarrow> dflt | Some s \<Rightarrow> s)"

text \<open>
  What is sent with \<^verbatim>\<open>res.json\<close>: an error with its status, the two answers of
  \<^verbatim>\<open>/api/info\<close>, the answer of \<^verbatim>\<open>/api/formats\<close> (the parsed lines and the raw output;
  its constant table of quality options is left out), and the success answers of the
  downloads (file name; folder, total and downloaded videos; folder). In a parsed format
  \<open>ext\<close> is \<open>None\<close> when the line has one column only.
\<close>

record parsedFormat =
  formatId :: jsstring
  ext :: "jsstring option"
  resolution :: jsstring
  hasAudio :: bool
  fullLine :: jsstring

datatype response =
    ErrorJson nat jsstring
  | VideoInfoJson videoInfo
  | PlaylistInfoJson playlistInfo
  | FormatsJson "parsedFormat list" jsstring
  | VideoDownloaded jsstring
  | AudioDownloaded jsstring
  | PlaylistDownloaded jsstring nat nat
  | PlaylistCompleted jsstring

text \<open>
  A handler, run until it has answered or has handed the download to \<^verbatim>\<open>exec\<close>: the
  response if one was sent, the cache it leaves, and its effects in order. With no
  response the \<^verbatim>\<open>exec\<close> callback or the kill timer answers later.
\<close>

type_synonym handled = "response option \<times> videoInfoCache \<times> effect list"

text \<open>
  How every route starts: \<^verbatim>\<open>const { url } = req.body; if (!url) return
  res.status(400).json({ error: 'URL is required' })\<close>. \<^verbatim>\<open>!url\<close> holds of a missing
  field and of the empty string; otherwise the handler goes on with the URL.
\<close>

definition withUrl :: "requestBody \<Rightarrow> videoInfoCache \<Rightarrow> (jsstring \<Rightarrow> handled) \<Rightarrow> handled" where
  "withUrl body cache continue =
     (case body_url body of
        None \<Rightarrow> (Some (ErrorJson 400 (js ''URL is required'')), cache, [])
      | Some u \<Rightarrow>
          if u = [] then (Some (ErrorJson 400 (js ''URL is required'')), cache, [])
          else continue u)"

text \<open>\<^verbatim>\<open>sanitizeFilename(info.title)\<close>: a title that is not a string has no
  \<^verbatim>\<open>replace\<close>, and the TypeError reaches the handler's \<^verbatim>\<open>catch\<close>.\<close>

definition sanitizedTitleOf :: "videoInfo \<Rightarrow> jsstring + jsstring" where
  "sanitizedTitleOf info =
     (case title info of
        JStr t \<Rightarrow> Inr (sanitizeFilename t)
      | _ \<Rightarrow> Inl (js ''filename.replace is not a function''))"

definition videoDownloadCommand :: "jsstring \<Rightarrow> jsstring \<Rightarrow> jsstring \<Rightarrow> jsstring" where
  \<open>videoDownloadCommand fsel outputPath u =
     js ''yt-dlp -f "'' @ fsel @
     js ''" --merge-output-format mp4 --audio-multistreams --no-keep-video --embed-metadata --add-metadata -o "'' @
     outputPath @ js ''" --no-warnings "'' @ u @ js ''"''\<close>

definition audioDownloadCommand :: "jsstring \<Rightarrow> jsstring \<Rightarrow> jsstring" where
  \<open>audioDownloadCommand outputPath u =
     js ''yt-dlp -f "bestaudio" --extract-audio --audio-format mp3 --audio-quality 0 -o "'' @
     outputPath @ js ''" --no-warnings "'' @ u @ js ''"''\<close>

definition playlistDownloadCommand :: "jsstring \<Rightarrow> jsstring \<Rightarrow> jsstring \<Rightarrow> jsstring" where
  \<open>playlistDownloadCommand fsel outputPath u =
     js ''yt-dlp -f "'' @ fsel @
     js ''" --merge-output-format mp4 --audio-multistreams --no-keep-video --embed-metadata --add-metadata --newline --progress-template "download:%(progress.downloaded_bytes)s/%(progress.total_bytes)s" -o "'' @
     outputPath @ js ''" --no-warnings "'' @ u @ js ''"''\<close>

definition playlistRouteCommand :: "jsstring \<Rightarrow> jsstring \<Rightarrow> jsstring \<Rightarrow> jsstring" where
  \<open>playlistRouteCommand fsel outputPath u =
     js ''yt-dlp -f "'' @ fsel @ js ''" --merge-output-format mp4 -o "'' @
     outputPath @ js ''" --no-warnings "'' @ u @ js ''"''\<close>

text \<open>\<^verbatim>\<open>app.post('/api/info', ...)\<close>\<close>

definition api_info :: "world \<Rightarrow> videoInfoCache \<Rightarrow> requestBody \<Rightarrow> handled" where
  "api_info w cache body =
     withUrl body cache
       (\<lambda>u. if isPlaylistUrl u then
              (case getPlaylistInfo w u of
                 (Inl m, fx) \<Rightarrow> (Some (ErrorJson 500 m), cache, fx)
               | (Inr playlistInfo, fx) \<Rightarrow> (Some (PlaylistInfoJson playlistInfo), cache, fx))
            else
              (case getVideoInfo w cache u of
                 (Inl m, c, fx) \<Rightarrow> (Some (ErrorJson 500 m), c, fx)
               | (Inr videoInfo, c, fx) \<Rightarrow> (Some (VideoInfoJson videoInfo), c, fx)))"

text \<open>The body of \<^verbatim>\<open>/api/download/video\<close> after its check of the URL, and the whole of
  \<^verbatim>\<open>handleVideoDownload\<close>: they differ in the selector chain they spell out and in
  \<^verbatim>\<open>maxBuffer\<close> (100 MB and 10 MB).\<close>

definition startVideoDownload ::
  "(jsstring \<Rightarrow> jsstring) \<Rightarrow> nat \<Rightarrow> world \<Rightarrow> videoInfoCache \<Rightarrow> requestBody \<Rightarrow> jsstring \<Rightarrow> handled" where
  "startVideoDownload selector maxBuffer w cache body u =
     (case getVideoInfo w cache u of
        (Inl m, c, fx) \<Rightarrow> (Some (ErrorJson 500 m), c, fx)
      | (Inr info, c, fx) \<Rightarrow>
          (case sanitizedTitleOf info of
             Inl m \<Rightarrow> (Some (ErrorJson 500 m), c, fx)
           | Inr sanitizedTitle \<Rightarrow>
               let filename = sanitizedTitle @ js ''.%(ext)s'';
                   outputPath = path_join w (downloadsDir w) filename;
                   fsel = selector (orDefault (body_quality body) (js ''highest''));
                   command = videoDownloadCommand fsel outputPath u
               in (None, c, fx @ [ExecCallback command (Some maxBuffer), KillTimer 600000])))"

definition api_download_video :: "world \<Rightarrow> videoInfoCache \<Rightarrow> requestBody \<Rightarrow> handled" where
  "api_download_video w cache body =
     withUrl body cache (startVideoDownload formatSelector (1024 * 1024 * 100) w cache body)"

definition handleVideoDownload :: "world \<Rightarrow> videoInfoCache \<Rightarrow> requestBody \<Rightarrow> jsstring \<Rightarrow> handled" where
  "handleVideoDownload w cache body u =
     startVideoDownload formatSelector_handleVideoDownload (1024 * 1024 * 10) w cache body u"

text \<open>\<^verbatim>\<open>handleAudioDownload\<close>, and the body of \<^verbatim>\<open>/api/download/audio\<close> after its check:
  \<^verbatim>\<open>exec\<close> without options and without a kill timer.\<close>

definition handleAudioDownload :: "world \<Rightarrow> videoInfoCache \<Rightarrow> requestBody \<Rightarrow> jsstring \<Rightarrow> handled" where
  "handleAudioDownload w cache body u =
     (case getVideoInfo w cache u of
        (Inl m, c, fx) \<Rightarrow> (Some (ErrorJson 500 m), c, fx)
      | (Inr info, c, fx) \<Rightarrow>
          (case sanitizedTitleOf info of
             Inl m \<Rightarrow> (Some (ErrorJson 500 m), c, fx)
           | Inr sanitizedTitle \<Rightarrow>
               let filename = sanitizedTitle @ js ''.%(ext)s'';
                   outputPath = path_join w (downloadsDir w) filename;
                   command = audioDownloadCommand outputPath u
               in (None, c, fx @ [ExecCallback command None])))"

definition api_download_audio :: "world \<Rightarrow> videoInfoCache \<Rightarrow> requestBody \<Rightarrow> handled" where
  "api_download_audio w cache body = withUrl body cache (handleAudioDownload w cache body)"

text \<open>\<^verbatim>\<open>handlePlaylistDownload\<close>: the playlist directory is made when it is not there.\<close>

definition handlePlaylistDownload :: "world \<Rightarrow> videoInfoCache \<Rightarrow> requestBody \<Rightarrow> jsstring \<Rightarrow> handled" where
  "handlePlaylistDownload w cache body u =
     (case getPlaylistInfo w u of
        (Inl m, fx) \<Rightarrow> (Some (ErrorJson 500 m), cache, fx)
      | (Inr playlistInfo, fx) \<Rightarrow>
          let sanitizedTitle = sanitizeFilename (pl_title playlistInfo);
              playlistDir = path_join w (downloadsDir w) sanitizedTitle;
              mk = (if \<not> existsSync w playlistDir then [MkdirSync playlistDir] else []);
              fsel = formatSelector_handlePlaylistDownload
                       (orDefault (body_quality body) (js ''highest''));
              outputPath = path_join w playlistDir (js ''%(title)s.%(ext)s'');
              command = playlistDownloadCommand fsel outputPath u
          in (None, cache,
              fx @ mk @ [ExecCallback command (Some (1024 * 1024 * 200)), KillTimer 1800000]))"

text \<open>\<^verbatim>\<open>app.post('/api/download/playlist', ...)\<close>: its own selector chain, \<^verbatim>\<open>exec\<close>
  without options, no kill timer.\<close>

definition api_download_playlist :: "world \<Rightarrow> videoInfoCache \<Rightarrow> requestBody \<Rightarrow> handled" where
  "api_download_playlist w cache body =
     withUrl body cache
       (\<lambda>u. case getPlaylistInfo w u of
              (Inl m, fx) \<Rightarrow> (Some (ErrorJson 500 m), cache, fx)
            | (Inr playlistInfo, fx) \<Rightarrow>
                let sanitizedTitle = sanitizeFilename (pl_title playlistInfo);
                    playlistDir = path_join w (downloadsDir w) sanitizedTitle;
                    mk = (if \<not> existsSync w playlistDir then [MkdirSync playlistDir] else []);
                    fsel = formatSelector_playlistRoute
                             (orDefault (body_quality body) (js ''best''));
                    outputPath = path_join w playlistDir (js ''%(title)s.%(ext)s'');
                    command = playlistRouteCommand fsel outputPath u
                in (None, cache, fx @ mk @ [ExecCallback command None]))"

text \<open>\<^verbatim>\<open>app.post('/api/download', ...)\<close>: the unified endpoint.\<close>

definition api_download :: "world \<Rightarrow> videoInfoCache \<Rightarrow> requestBody \<Rightarrow> handled" where
  "api_download w cache body =
     withUrl body cache
       (\<lambda>u. let type = orDefault (body_type body) (js ''video'')
            in if type = js ''playlist'' then handlePlaylistDownload w cache body u
               else if type = js ''audio'' then handleAudioDownload w cache body u
               else handleVideoDownload w cache body u)"

text \<open>
  \<^verbatim>\<open>app.post('/api/formats', ...)\<close>. \<^verbatim>\<open>execPromise(command)\<close> runs with Node's defaults,
  a \<^verbatim>\<open>maxBuffer\<close> of 1 MiB and no timeout (0). A line counts when it starts with a digit
  and names one of the three containers; \<^verbatim>\<open>split(/\s+/)\<close> cuts the trimmed line at every
  run of whitespace.
\<close>

definition formatsCommand :: "jsstring \<Rightarrow> jsstring" where
  \<open>formatsCommand u = js ''yt-dlp -F --no-warnings "'' @ u @ js ''"''\<close>

function splitWhitespace :: "jsstring \<Rightarrow> jsstring list" where
  "splitWhitespace [] = [[]]"
| "splitWhitespace (c # cs) =
     (if isWhiteSpace c then [] # splitWhitespace (dropWhile isWhiteSpace cs)
      else (c # hd (splitWhitespace cs)) # tl (splitWhitespace cs))"
  by pat_completeness auto
termination
  by (relation "measure length") (auto simp: length_dropWhile_le le_imp_less_Suc)

definition isFormatLine :: "jsstring \<Rightarrow> bool" where
  "isFormatLine line \<longleftrightarrow>
     (case line of [] \<Rightarrow> False | c # cs \<Rightarrow> 0x30 \<le> c \<and> c \<le> 0x39) \<and>
     (includes_str line (js ''mp4'') \<or> includes_str line (js ''webm'') \<or>
      includes_str line (js ''m4a''))"

definition parseFormatLine :: "jsstring \<Rightarrow> parsedFormat" where
  "parseFormatLine line =
     (let parts = splitWhitespace (trim line)
      in \<lparr>formatId = hd parts,
          ext = (if length parts > 1 then Some (parts ! 1) else None),
          resolution = (if length parts > 2 \<and> parts ! 2 \<noteq> [] then parts ! 2
                        else js ''audio only''),
          hasAudio = (includes_str line (js ''audio only'') \<or>
                      \<not> includes_str line (js ''video only'')),
          fullLine = trim line\<rparr>)"

definition api_formats :: "world \<Rightarrow> videoInfoCache \<Rightarrow> requestBody \<Rightarrow> handled" where
  "api_formats w cache body =
     withUrl body cache
       (\<lambda>u. let command = formatsCommand u;
                fx = [ExecPromise command (1024 * 1024) 0]
            in (case execPromise w command (1024 * 1024) 0 of
                  ExecError m \<Rightarrow> (Some (ErrorJson 500 m), cache, fx)
                | ExecOk out err \<Rightarrow>
                    let lines = split_str 0x0A out;
                        formatLines = filter isFormatLine lines;
                        parsedFormats = map parseFormatLine formatLines
                    in (Some (FormatsJson parsedFormats out), cache, fx)))"

section \<open>The exec callbacks of the downloads\<close>

text \<open>
  What the callback of \<^verbatim>\<open>exec\<close> sends, from the outcome of the process, whether a
  response has gone out already (\<^verbatim>\<open>res.headersSent\<close>) and, where it looks for the
  file, the listing of the directory. \<open>None\<close>: nothing is sent.
\<close>

definition unlessSent :: "bool \<Rightarrow> response \<Rightarrow> response option" where
  "unlessSent headersSent r = (if \<not> headersSent then Some r else None)"

text \<open>The callback in \<^verbatim>\<open>/api/download/video\<close> and in \<^verbatim>\<open>handleVideoDownload\<close>.\<close>

definition videoDownloadCallback ::
  "exec_outcome \<Rightarrow> bool \<Rightarrow> jsstring list \<Rightarrow> jsstring \<Rightarrow> response option" where
  "videoDownloadCallback outcome headersSent allFiles sanitizedTitle =
     (case outcome of
        ExecError m \<Rightarrow> unlessSent headersSent (ErrorJson 500 (js ''Download failed: '' @ m))
      | ExecOk out err \<Rightarrow>
          let files = filter (\<lambda>file. startsWith file sanitizedTitle \<and> endsWith file (js ''.mp4''))
                        allFiles
          in if length files > 0 then unlessSent headersSent (VideoDownloaded (hd files))
             else unlessSent headersSent
                    (ErrorJson 500 (js ''Download completed but MP4 file not found'')))"

text \<open>The callback in \<^verbatim>\<open>handleAudioDownload\<close> and in \<^verbatim>\<open>/api/download/audio\<close>.\<close>

definition audioDownloadCallback ::
  "exec_outcome \<Rightarrow> bool \<Rightarrow> jsstring list \<Rightarrow> jsstring \<Rightarrow> response option" where
  "audioDownloadCallback outcome headersSent allFiles sanitizedTitle =
     (case outcome of
        ExecError m \<Rightarrow> unlessSent headersSent (ErrorJson 500 (js ''Audio download failed''))
      | ExecOk out err \<Rightarrow>
          let files = filter (\<lambda>file. startsWith file sanitizedTitle \<and> endsWith file (js ''.mp3''))
                        allFiles
          in if length files > 0 then unlessSent headersSent (AudioDownloaded (hd files))
             else unlessSent headersSent
                    (ErrorJson 500 (js ''Audio download completed but file not found'')))"

text \<open>The callback in \<^verbatim>\<open>handlePlaylistDownload\<close>; the listing is that of the playlist
  directory.\<close>

definition playlistDownloadCallback ::
  "exec_outcome \<Rightarrow> bool \<Rightarrow> jsstring list \<Rightarrow> jsstring \<Rightarrow> nat \<Rightarrow> response option" where
  "playlistDownloadCallback outcome headersSent allFiles sanitizedTitle totalVideos =
     (case outcome of
        ExecError m \<Rightarrow>
          unlessSent headersSent (ErrorJson 500 (js ''Playlist download failed: '' @ m))
      | ExecOk out err \<Rightarrow>
          let downloadedFiles = filter (\<lambda>file. endsWith file (js ''.mp4'')) allFiles
          in unlessSent headersSent
               (PlaylistDownloaded sanitizedTitle totalVideos (length downloadedFiles)))"

text \<open>The callback in \<^verbatim>\<open>/api/download/playlist\<close>.\<close>

definition playlistRouteCallback :: "exec_outcome \<Rightarrow> bool \<Rightarrow> jsstring \<Rightarrow> response option" where
  "playlistRouteCallback outcome headersSent sanitizedTitle =
     (case outcome of
        ExecError m \<Rightarrow> unlessSent headersSent (ErrorJson 500 (js ''Playlist download failed''))
      | ExecOk out err \<Rightarrow> unlessSent headersSent (PlaylistCompleted sanitizedTitle))"

text \<open>
  Node's \<^verbatim>\<open>exec\<close> and \<^verbatim>\<open>execPromise\<close> fail with this message when the captured
  standard output grows past \<^verbatim>\<open>maxBuffer\<close>
  (\<^verbatim>\<open>ERR_CHILD_PROCESS_STDIO_MAXBUFFER\<close>), and with a message that starts with
  \<^verbatim>\<open>Command failed: \<close> followed by the command when the process exits with a nonzero
  status.
\<close>

definition maxBufferExceeded :: jsstring where
  "maxBufferExceeded = js ''stdout maxBuffer length exceeded''"

definition commandFailed :: "jsstring \<Rightarrow> jsstring" where
  "commandFailed command = js ''Command failed: '' @ command"

section \<open>The downloads directory and the cleanup passes\<close>

text \<open>
  A directory as \<^verbatim>\<open>fs.readdirSync\<close> lists it: for each name the size \<^verbatim>\<open>fs.statSync\<close>
  reports, and whether \<^verbatim>\<open>fs.unlinkSync\<close> can remove it. It cannot remove a directory
  (the handlers make playlist directories in the downloads directory) nor a file the
  operating system holds back. \<^verbatim>\<open>fs.unlinkSync\<close> throws on a name that is not there and on
  one it cannot remove; every call of it sits in a \<^verbatim>\<open>try\<close> whose \<^verbatim>\<open>catch\<close> only logs, so
  the entry stays and the pass goes on. During one pass nothing but the pass changes the
  directory.
\<close>

record fileEntry =
  fileName :: jsstring
  fileSize :: nat
  unlinkable :: bool

type_synonym directory = "fileEntry list"

definition readdirSync :: "directory \<Rightarrow> jsstring list" where
  "readdirSync d = map fileName d"

definition unlinkRefused :: "directory \<Rightarrow> jsstring \<Rightarrow> bool" where
  "unlinkRefused d file \<longleftrightarrow> (\<exists>e \<in> set d. fileName e = file \<and> \<not> unlinkable e)"

definition unlinkSync :: "directory \<Rightarrow> jsstring \<Rightarrow> directory option" where
  "unlinkSync d file =
     (if file \<notin> set (readdirSync d) then None
      else if unlinkRefused d file then None
      else Some (filter (\<lambda>e. fileName e \<noteq> file) d))"

definition tryUnlink :: "directory \<Rightarrow> jsstring \<Rightarrow> directory" where
  "tryUnlink d file = (case unlinkSync d file of None \<Rightarrow> d | Some d' \<Rightarrow> d')"

text \<open>The filter of \<^verbatim>\<open>cleanupTempFiles\<close>.\<close>

definition isTempFile :: "jsstring \<Rightarrow> jsstring \<Rightarrow> bool" where
  "isTempFile sanitizedTitle file \<longleftrightarrow>
     includes_str file sanitizedTitle \<and>
     (includes_str file (js ''.temp'') \<or>
      includes_str file (js ''.part'') \<or>
      includes_str file (js ''.webm'') \<or>
      includes_str file (js ''.m4a'') \<or>
      includes_str file (js ''.f140'') \<or>
      includes_str file (js ''.f313'') \<or>
      includes_str file (js ''.f401'') \<or>
      includes_str file (js ''.f137'') \<or>
      includes_str file (js ''.f136'') \<or>
      includes_str file (js ''.f135'') \<or>
      includes_str file (js ''.f244'') \<or>
      includes_str file (js ''.f247'') \<or>
      includes_str file (js ''.f248'') \<or>
      includes_str file (js ''.f271'') \<or>
      includes_str file (js ''.f398'') \<or>
      includes_str file (js ''.f399'') \<or>
      includes_str file (js ''.f400'') \<or>
      (includes_str file (js ''.mp4'') \<and> \<not> endsWith file (js ''.mp4'')))"

definition cleanupTempFiles :: "jsstring \<Rightarrow> directory \<Rightarrow> directory" where
  "cleanupTempFiles sanitizedTitle d =
     (let allFiles = readdirSync d;
          tempFiles = filter (isTempFile sanitizedTitle) allFiles
      in foldl tryUnlink d tempFiles)"

text \<open>The pass of \<^verbatim>\<open>handlePlaylistDownload\<close>, on the playlist directory.\<close>

definition isPlaylistTempFile :: "jsstring \<Rightarrow> bool" where
  "isPlaylistTempFile file \<longleftrightarrow>
     includes_str file (js ''.temp'') \<or> includes_str file (js ''.part'') \<or>
     (includes_str file (js ''.webm'') \<and> \<not> endsWith file (js ''.mp4'')) \<or>
     (includes_str file (js ''.m4a'') \<and> \<not> endsWith file (js ''.mp4''))"

definition playlistCleanup :: "directory \<Rightarrow> directory" where
  "playlistCleanup d =
     (let allFiles = readdirSync d;
          tempFiles = filter isPlaylistTempFile allFiles
      in foldl tryUnlink d tempFiles)"

text \<open>
  The final pass. \<^verbatim>\<open>finalMP4Files.map(...)\<close> reads the size of each file with
  \<^verbatim>\<open>statSync\<close>, which throws on a name that is gone: the outer \<^verbatim>\<open>catch\<close> then ends the
  pass. \<^verbatim>\<open>sort((a, b) => b.size - a.size)\<close> is a stable sort, largest first.
\<close>

fun fileStatsOf :: "directory \<Rightarrow> jsstring list \<Rightarrow> (jsstring \<times> nat) list option" where
  "fileStatsOf d [] = Some []"
| "fileStatsOf d (file # files) =
     (case find (\<lambda>e. fileName e = file) d of
        None \<Rightarrow> None
      | Some e \<Rightarrow> map_option ((#) (file, fileSize e)) (fileStatsOf d files))"

definition sortLargestFirst :: "(jsstring \<times> nat) list \<Rightarrow> (jsstring \<times> nat) list" where
  "sortLargestFirst fileStats = sort_key (\<lambda>st. - int (snd st)) fileStats"

definition isFinalMP4 :: "jsstring \<Rightarrow> jsstring \<Rightarrow> bool" where
  "isFinalMP4 sanitizedTitle file \<longleftrightarrow>
     startsWith file sanitizedTitle \<and> endsWith file (js ''.mp4'')"

definition isRemaining :: "jsstring \<Rightarrow> jsstring \<Rightarrow> bool" where
  "isRemaining sanitizedTitle file \<longleftrightarrow>
     includes_str file sanitizedTitle \<and> \<not> endsWith file (js ''.mp4'')"

definition finalCleanup :: "jsstring \<Rightarrow> directory \<Rightarrow> directory" where
  "finalCleanup sanitizedTitle d =
     (let allFiles = readdirSync d;
          finalMP4Files = filter (isFinalMP4 sanitizedTitle) allFiles;
          remainingFiles = filter (isRemaining sanitizedTitle) allFiles
      in if length finalMP4Files > 1 then
           (case fileStatsOf d finalMP4Files of
              None \<Rightarrow> d
            | Some fileStats \<Rightarrow>
                foldl tryUnlink
                  (foldl tryUnlink d (map fst (drop 1 (sortLargestFirst fileStats))))
                  remainingFiles)
         else foldl tryUnlink d remainingFiles)"

section \<open>The kill timers\<close>

text \<open>
  The child that \<^verbatim>\<open>exec\<close> has spawned, as the timer's callback meets it: whether the
  process is still running, Node's \<^verbatim>\<open>childProcess.killed\<close> (a signal has been delivered by
  \<^verbatim>\<open>kill()\<close>), and whether the process ends when it receives SIGTERM, which is the signal
  \<^verbatim>\<open>kill()\<close> sends when called without arguments. \<^verbatim>\<open>kill()\<close> on a child that has ended
  delivers nothing and leaves \<^verbatim>\<open>killed\<close> as it is.
\<close>

record childProcess =
  running :: bool
  killed :: bool
  endsOnSigterm :: bool

definition kill :: "childProcess \<Rightarrow> childProcess" where
  "kill child =
     (if running child then child\<lparr>killed := True, running := \<not> endsOnSigterm child\<rparr>
      else child)"

text \<open>
  The callback of the \<^verbatim>\<open>setTimeout\<close> that the two video handlers and
  \<^verbatim>\<open>handlePlaylistDownload\<close> arm after \<^verbatim>\<open>exec\<close>, run when the delay has passed:
  \<^verbatim>\<open>if (childProcess.killed === false) { childProcess.kill(); if (!res.headersSent)
  res.status(500).json({ error: msg }) }\<close>. It yields the child and what is sent.
\<close>

definition killTimerCallback :: "jsstring \<Rightarrow> childProcess \<Rightarrow> bool \<Rightarrow> childProcess \<times> response option" where
  "killTimerCallback msg child headersSent =
     (if killed child = False then
        (kill child, unlessSent headersSent (ErrorJson 500 msg))
      else (child, None))"

text \<open>The timer of \<^verbatim>\<open>/api/download/video\<close> and \<^verbatim>\<open>handleVideoDownload\<close> (600000 ms), and
  the timer of \<^verbatim>\<open>handlePlaylistDownload\<close> (1800000 ms).\<close>

definition videoKillTimer :: "childProcess \<Rightarrow> bool \<Rightarrow> childProcess \<times> response option" where
  "videoKillTimer = killTimerCallback (js ''Download timeout after 10 minutes'')"

definition playlistKillTimer :: "childProcess \<Rightarrow> bool \<Rightarrow> childProcess \<times> response option" where
  "playlistKillTimer = killTimerCallback (js ''Playlist download timeout after 30 minutes'')"

section \<open>The invariant of the cache\<close>

text \<open>Every key occurs once, and no key is a playlist URL.\<close>

definition cacheInv :: "videoInfoCache \<Rightarrow> bool" where
  "cacheInv c \<longleftrightarrow> distinct (map fst c) \<and> (\<forall>k \<in> set (map fst c). \<not> isPlaylistUrl k)"

section \<open>A world for the worked examples\<close>

text \<open>
  The clock reads \<open>t1\<close> at the cache check and \<open>t2\<close> at the store, every command has
  the outcome \<open>outcome\<close>, and \<^verbatim>\<open>JSON.parse\<close> knows the one text \<^verbatim>\<open>{"title":"A"}\<close>.
\<close>

definition exampleWorld :: "int \<Rightarrow> int \<Rightarrow> exec_outcome \<Rightarrow> world" where
  \<open>exampleWorld t1 t2 outcome =
     \<lparr>now_check = t1, now_store = t2,
      execPromise = (\<lambda>command maxBuffer timeout. outcome),
      JSON_parse = (\<lambda>text. if text = js ''{"title":"A"}''
                           then Inr (JObj [(js ''title'', JStr (js ''A''))])
                           else Inl (js ''Unexpected token in JSON'')),
      existsSync = (\<lambda>path. False),
      path_join = (\<lambda>dir file. dir @ js ''/'' @ file),
      downloadsDir = js ''/home/user/Downloads''\<rparr>\<close>

section \<open>Properties of sanitizeFilename\<close>

lemma underscore_not_space: "\<not> isWhiteSpace 0x5F"
  by (simp add: isWhiteSpace_def)

lemma replaceWhitespaceRuns_set:
  "c \<in> set (replaceWhitespaceRuns s) \<Longrightarrow> (c \<in> set s \<and> \<not> isWhiteSpace c) \<or> c = 0x5F"
proof (induction s rule: replaceWhitespaceRuns.induct)
  case 1
  then show ?case by simp
next
  case (2 d ds)
  show ?case
  proof (cases "isWhiteSpace d")
    case True
    with "2.prems" have "c = 0x5F \<or> c \<in> set (replaceWhitespaceRuns (dropWhile isWhiteSpace ds))"
      by simp
    then show ?thesis
      using "2.IH"(1) [OF True] by (auto dest: set_dropWhileD)
  next
    case False
    with "2.prems" have "c = d \<or> c \<in> set (replaceWhitespaceRuns ds)"
      by simp
    then show ?thesis
      using "2.IH"(2) [OF False] False by auto
  qed
qed

lemma replaceWhitespaceRuns_no_space:
  "\<forall>c \<in> set s. \<not> isWhiteSpace c \<Longrightarrow> replaceWhitespaceRuns s = s"
  by (induction s) simp_all

lemma sanitizeFilename_chars:
  assumes "c \<in> set (sanitizeFilename s)"
  shows "(isWordChar c \<or> c = 0x2E \<or> c = 0x2D) \<and> \<not> isWhiteSpace c"
proof -
  from assms have "(c \<in> set (removeDisallowed s) \<and> \<not> isWhiteSpace c) \<or> c = 0x5F"
    unfolding sanitizeFilename_def by (rule replaceWhitespaceRuns_set)
  then show ?thesis
  proof
    assume "c \<in> set (removeDisallowed s) \<and> \<not> isWhiteSpace c"
    then show ?thesis
      by (auto simp: removeDisallowed_def inSanitizeClass_def)
  next
    assume "c = 0x5F"
    then show ?thesis
      by (simp add: isWordChar_def underscore_not_space)
  qed
qed

text \<open>
  C10. For every string \<open>s\<close>, every code unit of \<open>sanitizeFilename s\<close> is a word
  character, a dot or a hyphen, none is whitespace, and sanitizing the result again
  changes nothing.
\<close>

theorem sanitizeFilename_alphabet_idempotent:
  "(\<forall>c \<in> set (sanitizeFilename s). (isWordChar c \<or> c = 0x2E \<or> c = 0x2D) \<and> \<not> isWhiteSpace c)
   \<and> sanitizeFilename (sanitizeFilename s) = sanitizeFilename s"
proof
  show "\<forall>c \<in> set (sanitizeFilename s). (isWordChar c \<or> c = 0x2E \<or> c = 0x2D) \<and> \<not> isWhiteSpace c"
    using sanitizeFilename_chars by blast
next
  have keep: "removeDisallowed (sanitizeFilename s) = sanitizeFilename s"
    unfolding removeDisallowed_def
    by (rule filter_True) (use sanitizeFilename_chars in \<open>auto simp: inSanitizeClass_def\<close>)
  have "replaceWhitespaceRuns (sanitizeFilename s) = sanitizeFilename s"
    by (rule replaceWhitespaceRuns_no_space) (use sanitizeFilename_chars in blast)
  with keep show "sanitizeFilename (sanitizeFilename s) = sanitizeFilename s"
    by (simp add: sanitizeFilename_def [of "sanitizeFilename s"])
qed

text \<open>The theorem at the title \<^verbatim>\<open>a b?\<close>: the question mark is dropped, the blank becomes an underscore.\<close>

theorem sanitizeFilename_alphabet_idempotent_witness:
  "sanitizeFilename (js ''a b?'') = js ''a_b''
   \<and> 0x5F \<in> set (sanitizeFilename (js ''a b?''))
   \<and> (isWordChar 0x5F \<or> (0x5F :: jschar) = 0x2E \<or> (0x5F :: jschar) = 0x2D) \<and> \<not> isWhiteSpace 0x5F
   \<and> sanitizeFilename (sanitizeFilename (js ''a b?'')) = sanitizeFilename (js ''a b?'')"
  using sanitizeFilename_alphabet_idempotent [of "js ''a b?''"]
  by (simp add: sanitizeFilename_def removeDisallowed_def inSanitizeClass_def isWordChar_def
      isWhiteSpace_def js_def)

section \<open>Properties of the quality selectors\<close>

text \<open>
  C3. The mapping from quality selector to format string is a function of the selector
  alone: each recognized selector has its fixed format string, every other string gets the
  format string of the default tier (720p), and the chains written out in
  \<^verbatim>\<open>handleVideoDownload\<close> and \<^verbatim>\<open>handlePlaylistDownload\<close> compute the same function as
  the one in \<^verbatim>\<open>/api/download/video\<close>. The chain of \<^verbatim>\<open>/api/download/playlist\<close> sends
  every string outside the recognized set to its own fixed default.
\<close>

theorem formatSelector_table:
  "formatSelector (js ''144p'') = js ''18''
   \<and> formatSelector (js ''240p'') = js ''18''
   \<and> formatSelector (js ''360p'') = js ''18''
   \<and> formatSelector (js ''480p'') = js ''135+140/244+140/397+140/bestvideo[height<=480]+bestaudio''
   \<and> formatSelector (js ''720p'') = js ''136+140/247+140/398+140/bestvideo[height<=720]+bestaudio''
   \<and> formatSelector (js ''1080p'') = js ''137+140/248+140/399+140/bestvideo[height<=1080]+bestaudio''
   \<and> formatSelector (js ''1440p'') = js ''271+140/400+140/bestvideo[height<=1440]+bestaudio''
   \<and> formatSelector (js ''4k'') = js ''313+140/401+140/bestvideo[height<=2160]+bestaudio''
   \<and> formatSelector (js ''highest'') = js ''136+140/247+140/398+140/bestvideo[height<=720]+bestaudio''
   \<and> (q \<notin> set recognizedQualities \<longrightarrow>
        formatSelector q = js ''136+140/247+140/398+140/bestvideo[height<=720]+bestaudio'')
   \<and> formatSelector_handleVideoDownload q = formatSelector q
   \<and> formatSelector_handlePlaylistDownload q = formatSelector q
   \<and> (q \<notin> set recognizedQualities \<longrightarrow> formatSelector_playlistRoute q = js ''best[ext=mp4]/best'')"
proof -
  have lits: "js ''144p'' \<noteq> js ''360p''" "js ''144p'' \<noteq> js ''240p''" "js ''240p'' \<noteq> js ''360p''"
    "js ''480p'' \<notin> {js ''360p'', js ''240p'', js ''144p'', js ''4k'', js ''1440p'', js ''1080p'', js ''720p''}"
    "js ''720p'' \<notin> {js ''360p'', js ''240p'', js ''144p'', js ''4k'', js ''1440p'', js ''1080p''}"
    "js ''1080p'' \<notin> {js ''360p'', js ''240p'', js ''144p'', js ''4k'', js ''1440p''}"
    "js ''1440p'' \<notin> {js ''360p'', js ''240p'', js ''144p'', js ''4k''}"
    "js ''4k'' \<notin> {js ''360p'', js ''240p'', js ''144p''}"
    "js ''highest'' \<notin> {js ''360p'', js ''240p'', js ''144p'', js ''4k'', js ''1440p'', js ''1080p'', js ''720p'', js ''480p''}"
    by (simp_all add: js_def)
  have same: "formatSelector_handleVideoDownload q = formatSelector q"
    "formatSelector_handlePlaylistDownload q = formatSelector q"
    by (simp_all add: formatSelector_handleVideoDownload_def
        formatSelector_handlePlaylistDownload_def formatSelector_def)
  have dflt: "q \<notin> set recognizedQualities \<longrightarrow>
        formatSelector q = js ''136+140/247+140/398+140/bestvideo[height<=720]+bestaudio''"
    by (simp add: recognizedQualities_def formatSelector_def)
  have route: "q \<notin> set recognizedQualities \<longrightarrow>
        formatSelector_playlistRoute q = js ''best[ext=mp4]/best''"
    by (simp add: recognizedQualities_def formatSelector_playlistRoute_def)
  from lits same dflt route show ?thesis
    by (simp add: formatSelector_def)
qed

theorem formatSelector_table_witness:
  "js ''best'' \<notin> set recognizedQualities
   \<and> formatSelector (js ''best'') = js ''136+140/247+140/398+140/bestvideo[height<=720]+bestaudio''"
proof -
  have "js ''best'' \<notin> set recognizedQualities"
    by (simp add: recognizedQualities_def js_def)
  with formatSelector_table [of "js ''best''"] show ?thesis by blast
qed

section \<open>Properties of the cache and of the handlers\<close>

lemma Map_get_Map_set_same: "Map_get (Map_set m k v) k = Some v"
  by (induction m) (auto simp: Map_get_def)

lemma Map_get_Map_set_other: "k' \<noteq> k \<Longrightarrow> Map_get (Map_set m k v) k' = Map_get m k'"
  by (induction m) (auto simp: Map_get_def)

lemma keys_Map_set:
  "map fst (Map_set m k v) = (if k \<in> set (map fst m) then map fst m else map fst m @ [k])"
  by (induction m) force+

lemma distinct_Map_set: "distinct (map fst m) \<Longrightarrow> distinct (map fst (Map_set m k v))"
  by (simp add: keys_Map_set)

lemma length_Map_set:
  "length (Map_set m k v) = (if k \<in> set (map fst m) then length m else Suc (length m))"
  by (induction m) force+

lemma Map_get_None_iff: "Map_get m k = None \<longleftrightarrow> k \<notin> set (map fst m)"
  by (simp add: Map_get_def map_of_eq_None_iff)

text \<open>What a call of getVideoInfo can do to the cache.\<close>

lemma getVideoInfo_fetch_Inr:
  assumes "getVideoInfo_fetch w cache u = (Inr vi, c, fx)"
  shows "\<not> isPlaylistUrl u \<and> c = Map_set cache u \<lparr>data = vi, timestamp = now_store w\<rparr>
         \<and> fx = [ExecPromise (videoInfoCommand u) (1024 * 1024 * 10) 30000]"
  using assms
  by (auto simp: getVideoInfo_fetch_def Let_def split: if_splits exec_outcome.splits sum.splits)

lemma getVideoInfo_fetch_Inl:
  assumes "getVideoInfo_fetch w cache u = (Inl m, c, fx)"
  shows "c = cache \<and> (if isPlaylistUrl u then fx = []
                        else fx = [ExecPromise (videoInfoCommand u) (1024 * 1024 * 10) 30000])"
  using assms
  by (auto simp: getVideoInfo_fetch_def Let_def split: if_splits exec_outcome.splits sum.splits)

lemma getVideoInfo_hit:
  "Map_get cache u = Some e \<Longrightarrow> now_check w - timestamp e < CACHE_DURATION \<Longrightarrow>
   getVideoInfo w cache u = (Inr (data e), cache, [])"
  by (simp add: getVideoInfo_def)

lemma getVideoInfo_miss:
  assumes "\<forall>e. Map_get cache u = Some e \<longrightarrow> \<not> now_check w - timestamp e < CACHE_DURATION"
  shows "getVideoInfo w cache u =
     (case getVideoInfo_fetch w cache u of
        (Inl m, c, fx) \<Rightarrow> (Inl (getVideoInfo_catch m), c, fx)
      | (Inr vi, c, fx) \<Rightarrow> (Inr vi, c, fx))"
  using assms by (auto simp: getVideoInfo_def split: option.splits)

lemma getVideoInfo_miss_Inr:
  assumes "\<forall>e. Map_get cache u = Some e \<longrightarrow> \<not> now_check w - timestamp e < CACHE_DURATION"
    and "getVideoInfo w cache u = (Inr vi, c, fx)"
  shows "\<not> isPlaylistUrl u \<and> c = Map_set cache u \<lparr>data = vi, timestamp = now_store w\<rparr>
         \<and> fx = [ExecPromise (videoInfoCommand u) (1024 * 1024 * 10) 30000]"
proof -
  obtain r' c' fx' where f: "getVideoInfo_fetch w cache u = (r', c', fx')"
    by (cases "getVideoInfo_fetch w cache u") auto
  with assms have "r' = Inr vi \<and> c' = c \<and> fx' = fx"
    by (auto simp: getVideoInfo_miss split: sum.splits)
  with getVideoInfo_fetch_Inr [of w cache u vi c fx] f show ?thesis by simp
qed

text \<open>The definitions a lookup unfolds to on a concrete world.\<close>

lemmas eval_lookup =
  getVideoInfo_def getVideoInfo_fetch_def getVideoInfo_parse_def getVideoInfo_catch_def
  exampleWorld_def Map_get_def isPlaylistUrl_def trim_def js_def Let_def
  isWhiteSpace_def CACHE_DURATION_def

text \<open>
  C1. A lookup that misses (no entry for the URL, or an expired one) and returns a payload
  has run exactly one yt-dlp command; a second lookup of the same URL whose clock reading
  is less than five minutes after the store returns the identical payload, leaves the
  cache as it is and runs no command.
\<close>

theorem cache_hit_within_window:
  assumes "\<forall>e. Map_get cache u = Some e \<longrightarrow> \<not> now_check w1 - timestamp e < CACHE_DURATION"
    and "getVideoInfo w1 cache u = (Inr payload, cache', fx1)"
    and "now_check w2 - now_store w1 < CACHE_DURATION"
  shows "getVideoInfo w2 cache' u = (Inr payload, cache', [])
         \<and> fx1 = [ExecPromise (videoInfoCommand u) (1024 * 1024 * 10) 30000]"
proof -
  from getVideoInfo_miss_Inr [OF assms(1,2)]
  have c: "cache' = Map_set cache u \<lparr>data = payload, timestamp = now_store w1\<rparr>"
    and fx: "fx1 = [ExecPromise (videoInfoCommand u) (1024 * 1024 * 10) 30000]"
    by simp_all
  have "Map_get cache' u = Some \<lparr>data = payload, timestamp = now_store w1\<rparr>"
    by (simp add: c Map_get_Map_set_same)
  from getVideoInfo_hit [OF this, of w2] assms(3) fx show ?thesis by simp
qed


text \<open>A cold cache, a fetch stored at clock 1000, and a second lookup at clock 300999.\<close>

theorem cache_hit_within_window_witness:
  \<open>getVideoInfo (exampleWorld 0 1000 (ExecOk (js ''{"title":"A"}'') [])) [] (js ''https://youtu.be/x'') =
     (Inr \<lparr>title = JStr (js ''A''), duration = JUndefined, thumbnail = JUndefined,
           uploader = JUndefined, view_count = JUndefined\<rparr>,
      [(js ''https://youtu.be/x'',
        \<lparr>data = \<lparr>title = JStr (js ''A''), duration = JUndefined, thumbnail = JUndefined,
                  uploader = JUndefined, view_count = JUndefined\<rparr>,
         timestamp = 1000\<rparr>)],
      [ExecPromise (videoInfoCommand (js ''https://youtu.be/x'')) (1024 * 1024 * 10) 30000])
   \<and> getVideoInfo (exampleWorld 300999 300999 (ExecError []))
       [(js ''https://youtu.be/x'',
        \<lparr>data = \<lparr>title = JStr (js ''A''), duration = JUndefined, thumbnail = JUndefined,
                  uploader = JUndefined, view_count = JUndefined\<rparr>,
         timestamp = 1000\<rparr>)]
       (js ''https://youtu.be/x'') =
     (Inr \<lparr>title = JStr (js ''A''), duration = JUndefined, thumbnail = JUndefined,
           uploader = JUndefined, view_count = JUndefined\<rparr>,
      [(js ''https://youtu.be/x'',
        \<lparr>data = \<lparr>title = JStr (js ''A''), duration = JUndefined, thumbnail = JUndefined,
                  uploader = JUndefined, view_count = JUndefined\<rparr>,
         timestamp = 1000\<rparr>)],
      [])\<close>
proof -
  let ?w1 = \<open>exampleWorld 0 1000 (ExecOk (js ''{"title":"A"}'') [])\<close>
  let ?w2 = "exampleWorld 300999 300999 (ExecError [])"
  let ?u = "js ''https://youtu.be/x''"
  let ?p = "\<lparr>title = JStr (js ''A''), duration = JUndefined, thumbnail = JUndefined,
           uploader = JUndefined, view_count = JUndefined\<rparr>"
  have miss: "\<forall>e. Map_get [] ?u = Some e \<longrightarrow> \<not> now_check ?w1 - timestamp e < CACHE_DURATION"
    by (simp add: Map_get_def)
  have first: "getVideoInfo ?w1 [] ?u =
     (Inr ?p, [(?u, \<lparr>data = ?p, timestamp = 1000\<rparr>)],
      [ExecPromise (videoInfoCommand ?u) (1024 * 1024 * 10) 30000])"
    by (simp add: eval_lookup)
  have window: "now_check ?w2 - now_store ?w1 < CACHE_DURATION"
    by (simp add: exampleWorld_def CACHE_DURATION_def)
  from cache_hit_within_window [OF miss first window] first show ?thesis
    by blast
qed

lemma getVideoInfo_cache_step:
  assumes "getVideoInfo w cache u = (r, c, fx)"
  shows "c = cache \<or> (\<not> isPlaylistUrl u \<and> (\<exists>e. c = Map_set cache u e))"
proof -
  obtain r' c' fx' where f: "getVideoInfo_fetch w cache u = (r', c', fx')"
    by (cases "getVideoInfo_fetch w cache u") auto
  show ?thesis
  proof (cases r')
    case (Inl m)
    with f getVideoInfo_fetch_Inl [of w cache u m c' fx'] assms show ?thesis
      by (auto simp: getVideoInfo_def split: option.splits if_splits)
  next
    case (Inr vi)
    with f getVideoInfo_fetch_Inr [of w cache u vi c' fx'] assms show ?thesis
      by (auto simp: getVideoInfo_def split: option.splits if_splits)
  qed
qed

lemma cacheInv_Map_set: "cacheInv c \<Longrightarrow> \<not> isPlaylistUrl u \<Longrightarrow> cacheInv (Map_set c u e)"
  by (auto simp: cacheInv_def keys_Map_set)

lemma cacheInv_getVideoInfo: "cacheInv c \<Longrightarrow> cacheInv (fst (snd (getVideoInfo w c u)))"
  using getVideoInfo_cache_step [of w c u "fst (getVideoInfo w c u)"
      "fst (snd (getVideoInfo w c u))" "snd (snd (getVideoInfo w c u))"]
  by (auto simp: cacheInv_Map_set)

lemma cacheInv_afterLookups: "cacheInv c \<Longrightarrow> cacheInv (afterLookups calls c)"
  by (induction calls arbitrary: c) (auto simp: cacheInv_getVideoInfo)

lemma cacheInv_reachable: "cacheInv (afterLookups calls [])"
  by (rule cacheInv_afterLookups) (simp add: cacheInv_def)

lemma distinct_keys_count: "distinct (map fst c) \<Longrightarrow> length (filter (\<lambda>e. fst e = k) c) \<le> 1"
  by (induction c) (auto simp: filter_empty_conv image_iff)

lemma distinct_keys_count_present:
  "distinct (map fst c) \<Longrightarrow> k \<in> set (map fst c) \<Longrightarrow> length (filter (\<lambda>e. fst e = k) c) = 1"
  by (induction c) (auto simp: filter_empty_conv image_iff)

lemma playlist_message:
  \<open>getVideoInfo_catch (js ''This is a playlist URL. Please use the playlist download option instead.'')
     = js ''This is a playlist URL. Please select "Entire Playlist" as download type.''\<close>
  by (simp add: getVideoInfo_catch_def js_def)

lemma getVideoInfo_playlist:
  assumes "isPlaylistUrl u" and "cacheInv c"
  shows \<open>getVideoInfo w c u =
     (Inl (js ''This is a playlist URL. Please select "Entire Playlist" as download type.''), c, [])\<close>
proof -
  from assms have "Map_get c u = None"
    by (auto simp: cacheInv_def Map_get_None_iff)
  then show ?thesis
    using assms(1) by (simp add: getVideoInfo_def getVideoInfo_fetch_def playlist_message)
qed

lemma isPlaylistUrl_nonempty: "isPlaylistUrl u \<Longrightarrow> u \<noteq> []"
  by (auto simp: isPlaylistUrl_def js_def)

text \<open>
  C5. A URL that contains \<^verbatim>\<open>playlist\<close> or \<^verbatim>\<open>list=\<close> is refused by \<^verbatim>\<open>getVideoInfo\<close>,
  in every cache the server can reach, with the message that sends the caller to the
  playlist download; no command runs, the cache is unchanged and holds nothing for the URL.
  The single-video and audio download handlers, and the unified endpoint when no type is
  given, answer 500 with that message.
\<close>

theorem playlist_url_rejected:
  assumes "isPlaylistUrl u"
  shows \<open>getVideoInfo w (afterLookups calls []) u =
           (Inl (js ''This is a playlist URL. Please select "Entire Playlist" as download type.''),
            afterLookups calls [], [])
         \<and> Map_get (afterLookups calls []) u = None
         \<and> api_download_video w (afterLookups calls []) (body\<lparr>body_url := Some u\<rparr>) =
           (Some (ErrorJson 500
              (js ''This is a playlist URL. Please select "Entire Playlist" as download type.'')),
            afterLookups calls [], [])
         \<and> api_download_audio w (afterLookups calls []) (body\<lparr>body_url := Some u\<rparr>) =
           (Some (ErrorJson 500
              (js ''This is a playlist URL. Please select "Entire Playlist" as download type.'')),
            afterLookups calls [], [])
         \<and> handleVideoDownload w (afterLookups calls []) body u =
           (Some (ErrorJson 500
              (js ''This is a playlist URL. Please select "Entire Playlist" as download type.'')),
            afterLookups calls [], [])
         \<and> api_download w (afterLookups calls []) (body\<lparr>body_url := Some u, body_type := None\<rparr>) =
           (Some (ErrorJson 500
              (js ''This is a playlist URL. Please select "Entire Playlist" as download type.'')),
            afterLookups calls [], [])\<close>
proof -
  have inv: "cacheInv (afterLookups calls [])" by (rule cacheInv_reachable)
  note g = getVideoInfo_playlist [OF assms inv, of w]
  from assms inv have none: "Map_get (afterLookups calls []) u = None"
    by (auto simp: cacheInv_def Map_get_None_iff)
  from isPlaylistUrl_nonempty [OF assms] g none show ?thesis
    by (simp add: api_download_video_def api_download_audio_def handleVideoDownload_def
        handleAudioDownload_def startVideoDownload_def api_download_def orDefault_def withUrl_def
        js_def)
qed

text \<open>A playlist URL on the fresh server.\<close>

theorem playlist_url_rejected_witness:
  \<open>isPlaylistUrl (js ''https://youtube.com/playlist?list=PL1'')
   \<and> getVideoInfo (exampleWorld 0 0 (ExecOk (js ''{"title":"A"}'') [])) []
       (js ''https://youtube.com/playlist?list=PL1'') =
     (Inl (js ''This is a playlist URL. Please select "Entire Playlist" as download type.''), [], [])
   \<and> api_download_video (exampleWorld 0 0 (ExecOk (js ''{"title":"A"}'') [])) []
       \<lparr>body_url = Some (js ''https://youtube.com/playlist?list=PL1''), body_quality = None,
        body_type = None\<rparr> =
     (Some (ErrorJson 500
        (js ''This is a playlist URL. Please select "Entire Playlist" as download type.'')), [], [])\<close>
proof -
  have p: "isPlaylistUrl (js ''https://youtube.com/playlist?list=PL1'')"
    by (simp add: isPlaylistUrl_def js_def)
  from playlist_url_rejected [OF p, of _ "[]" "\<lparr>body_url = None, body_quality = None, body_type = None\<rparr>"] p
  show ?thesis by simp
qed

text \<open>
  C6. A request whose body has no \<^verbatim>\<open>url\<close> field is answered 400, \<^verbatim>\<open>URL is required\<close>,
  by the info endpoint, by every download endpoint and by the formats endpoint, with no
  effect on the outside and none on the cache.
\<close>

theorem missing_url_rejected:
  assumes "body_url body = None"
  shows "api_info w cache body = (Some (ErrorJson 400 (js ''URL is required'')), cache, [])
       \<and> api_download_video w cache body = (Some (ErrorJson 400 (js ''URL is required'')), cache, [])
       \<and> api_download w cache body = (Some (ErrorJson 400 (js ''URL is required'')), cache, [])
       \<and> api_download_playlist w cache body = (Some (ErrorJson 400 (js ''URL is required'')), cache, [])
       \<and> api_download_audio w cache body = (Some (ErrorJson 400 (js ''URL is required'')), cache, [])
       \<and> api_formats w cache body = (Some (ErrorJson 400 (js ''URL is required'')), cache, [])"
  using assms
  by (simp add: api_info_def api_download_video_def api_download_def api_download_playlist_def
      api_download_audio_def api_formats_def withUrl_def)

text \<open>A body with a quality and no URL.\<close>

theorem missing_url_rejected_witness:
  "body_url \<lparr>body_url = None, body_quality = Some (js ''720p''), body_type = None\<rparr> = None
   \<and> api_download_video (exampleWorld 0 0 (ExecError [])) []
       \<lparr>body_url = None, body_quality = Some (js ''720p''), body_type = None\<rparr> =
     (Some (ErrorJson 400 (js ''URL is required'')), [], [])"
proof -
  have n: "body_url \<lparr>body_url = None, body_quality = Some (js ''720p''), body_type = None\<rparr> = None"
    by simp
  from missing_url_rejected [OF n] n show ?thesis by blast
qed

text \<open>
  C2. After any sequence of lookups the cache holds at most one entry per key. A further
  lookup runs at most one command and again leaves at most one entry per key. When it finds
  no unexpired entry it runs exactly one command, provided the key has an (expired) entry
  or is not a playlist URL; and when it then returns a payload, the one entry of the key is
  the new payload with the new timestamp: a key that was there keeps its place and no entry
  is added.
\<close>

theorem at_most_one_entry_per_key:
  "length (filter (\<lambda>e. fst e = k) (afterLookups calls [])) \<le> 1
   \<and> (getVideoInfo w (afterLookups calls []) u = (r, cache', fx) \<longrightarrow>
        length fx \<le> 1
        \<and> length (filter (\<lambda>e. fst e = k) cache') \<le> 1
        \<and> ((\<forall>e. Map_get (afterLookups calls []) u = Some e \<longrightarrow>
                  \<not> now_check w - timestamp e < CACHE_DURATION) \<longrightarrow>
             (\<not> isPlaylistUrl u \<or> u \<in> set (map fst (afterLookups calls [])) \<longrightarrow>
                fx = [ExecPromise (videoInfoCommand u) (1024 * 1024 * 10) 30000])
             \<and> (r = Inr vi \<longrightarrow>
                  Map_get cache' u = Some \<lparr>data = vi, timestamp = now_store w\<rparr>
                  \<and> length (filter (\<lambda>e. fst e = u) cache') = 1
                  \<and> (u \<in> set (map fst (afterLookups calls [])) \<longrightarrow>
                       map fst cache' = map fst (afterLookups calls [])))))"
proof -
  let ?c = "afterLookups calls []"
  have inv: "cacheInv ?c" by (rule cacheInv_reachable)
  then have d: "distinct (map fst ?c)" by (simp add: cacheInv_def)
  have one: "length (filter (\<lambda>e. fst e = k) ?c) \<le> 1"
    by (rule distinct_keys_count [OF d])
  have step: "length fx \<le> 1
        \<and> length (filter (\<lambda>e. fst e = k) cache') \<le> 1
        \<and> ((\<forall>e. Map_get ?c u = Some e \<longrightarrow> \<not> now_check w - timestamp e < CACHE_DURATION) \<longrightarrow>
             (\<not> isPlaylistUrl u \<or> u \<in> set (map fst ?c) \<longrightarrow>
                fx = [ExecPromise (videoInfoCommand u) (1024 * 1024 * 10) 30000])
             \<and> (r = Inr vi \<longrightarrow>
                  Map_get cache' u = Some \<lparr>data = vi, timestamp = now_store w\<rparr>
                  \<and> length (filter (\<lambda>e. fst e = u) cache') = 1
                  \<and> (u \<in> set (map fst ?c) \<longrightarrow> map fst cache' = map fst ?c)))"
    if g: "getVideoInfo w ?c u = (r, cache', fx)"
  proof -
    from cacheInv_getVideoInfo [OF inv, of w u] g have inv': "cacheInv cache'" by simp
    then have d': "distinct (map fst cache')" by (simp add: cacheInv_def)
    obtain r' c' fx' where f: "getVideoInfo_fetch w ?c u = (r', c', fx')"
      by (cases "getVideoInfo_fetch w ?c u") auto
    have fxlen: "length fx' \<le> 1"
      using f getVideoInfo_fetch_Inl [of w ?c u _ c' fx'] getVideoInfo_fetch_Inr [of w ?c u _ c' fx']
      by (cases r') (auto split: if_splits)
    have len: "length fx \<le> 1"
      using g f fxlen by (auto simp: getVideoInfo_def split: option.splits if_splits sum.splits)
    have miss: "(\<not> isPlaylistUrl u \<or> u \<in> set (map fst ?c) \<longrightarrow>
                fx = [ExecPromise (videoInfoCommand u) (1024 * 1024 * 10) 30000])
             \<and> (r = Inr vi \<longrightarrow>
                  Map_get cache' u = Some \<lparr>data = vi, timestamp = now_store w\<rparr>
                  \<and> length (filter (\<lambda>e. fst e = u) cache') = 1
                  \<and> (u \<in> set (map fst ?c) \<longrightarrow> map fst cache' = map fst ?c))"
      if m: "\<forall>e. Map_get ?c u = Some e \<longrightarrow> \<not> now_check w - timestamp e < CACHE_DURATION"
    proof -
      have fx_eq: "fx' = fx"
        using g f by (auto simp: getVideoInfo_miss [OF m] split: sum.splits)
      have a0: "\<not> isPlaylistUrl u \<longrightarrow> fx = [ExecPromise (videoInfoCommand u) (1024 * 1024 * 10) 30000]"
        using f fx_eq getVideoInfo_fetch_Inl [of w ?c u _ c' fx'] getVideoInfo_fetch_Inr [of w ?c u _ c' fx']
        by (cases r') auto
      have "u \<in> set (map fst ?c) \<longrightarrow> \<not> isPlaylistUrl u"
        using inv by (auto simp: cacheInv_def)
      with a0 have a: "\<not> isPlaylistUrl u \<or> u \<in> set (map fst ?c) \<longrightarrow>
          fx = [ExecPromise (videoInfoCommand u) (1024 * 1024 * 10) 30000]"
        by blast
      have b: "Map_get cache' u = Some \<lparr>data = vi, timestamp = now_store w\<rparr>
                  \<and> length (filter (\<lambda>e. fst e = u) cache') = 1
                  \<and> (u \<in> set (map fst ?c) \<longrightarrow> map fst cache' = map fst ?c)"
        if "r = Inr vi"
      proof -
        from getVideoInfo_miss_Inr [OF m, of vi cache' fx] g that
        have c: "cache' = Map_set ?c u \<lparr>data = vi, timestamp = now_store w\<rparr>" by simp
        have k: "u \<in> set (map fst cache')"
          by (simp add: c keys_Map_set)
        show ?thesis
          using distinct_keys_count_present [OF d' k]
          by (simp add: c Map_get_Map_set_same keys_Map_set)
      qed
      from a b show ?thesis by blast
    qed
    from len distinct_keys_count [OF d'] miss show ?thesis by blast
  qed
  from one step show ?thesis by blast
qed

text \<open>One lookup fills the cache; a second one, after expiry, replaces the entry.\<close>

theorem at_most_one_entry_per_key_witness:
  \<open>afterLookups [(exampleWorld 0 1000 (ExecOk (js ''{"title":"A"}'') []), js ''https://youtu.be/x'')] [] =
     [(js ''https://youtu.be/x'',
       \<lparr>data = \<lparr>title = JStr (js ''A''), duration = JUndefined, thumbnail = JUndefined,
                 uploader = JUndefined, view_count = JUndefined\<rparr>,
        timestamp = 1000\<rparr>)]
   \<and> getVideoInfo (exampleWorld 301000 301500 (ExecOk (js ''{"title":"A"}'') []))
       (afterLookups [(exampleWorld 0 1000 (ExecOk (js ''{"title":"A"}'') []), js ''https://youtu.be/x'')] [])
       (js ''https://youtu.be/x'') =
     (Inr \<lparr>title = JStr (js ''A''), duration = JUndefined, thumbnail = JUndefined,
           uploader = JUndefined, view_count = JUndefined\<rparr>,
      [(js ''https://youtu.be/x'',
        \<lparr>data = \<lparr>title = JStr (js ''A''), duration = JUndefined, thumbnail = JUndefined,
                  uploader = JUndefined, view_count = JUndefined\<rparr>,
         timestamp = 301500\<rparr>)],
      [ExecPromise (videoInfoCommand (js ''https://youtu.be/x'')) (1024 * 1024 * 10) 30000])
   \<and> length (filter (\<lambda>e. fst e = js ''https://youtu.be/x'')
        [(js ''https://youtu.be/x'',
        \<lparr>data = \<lparr>title = JStr (js ''A''), duration = JUndefined, thumbnail = JUndefined,
                  uploader = JUndefined, view_count = JUndefined\<rparr>,
         timestamp = 301500\<rparr>)]) = 1\<close>
proof -
  let ?w1 = \<open>exampleWorld 0 1000 (ExecOk (js ''{"title":"A"}'') [])\<close>
  let ?w2 = \<open>exampleWorld 301000 301500 (ExecOk (js ''{"title":"A"}'') [])\<close>
  let ?u = "js ''https://youtu.be/x''"
  let ?p = "\<lparr>title = JStr (js ''A''), duration = JUndefined, thumbnail = JUndefined,
           uploader = JUndefined, view_count = JUndefined\<rparr>"
  let ?c1 = "[(?u, \<lparr>data = ?p, timestamp = 1000\<rparr>)]"
  let ?c2 = "[(?u, \<lparr>data = ?p, timestamp = 301500\<rparr>)]"
  let ?fx = "[ExecPromise (videoInfoCommand ?u) (1024 * 1024 * 10) 30000]"
  have first: "getVideoInfo ?w1 [] ?u = (Inr ?p, ?c1, ?fx)"
    by (simp add: eval_lookup)
  then have c1: "afterLookups [(?w1, ?u)] [] = ?c1"
    by simp
  have second: "getVideoInfo ?w2 ?c1 ?u = (Inr ?p, ?c2, ?fx)"
    by (simp add: eval_lookup)
  have expired: "\<forall>e. Map_get ?c1 ?u = Some e \<longrightarrow> \<not> now_check ?w2 - timestamp e < CACHE_DURATION"
    by (simp add: Map_get_def exampleWorld_def CACHE_DURATION_def)
  have present: "?u \<in> set (map fst ?c1)"
    by simp
  from at_most_one_entry_per_key [of ?u "[(?w1, ?u)]" ?w2 ?u "Inr ?p" ?c2 ?fx ?p]
  have "length (filter (\<lambda>e. fst e = ?u) ?c2) = 1"
    unfolding c1 using second expired present by blast
  with c1 second show ?thesis
    by (simp only: simp_thms)
qed

section \<open>Properties of the cleanup passes\<close>

lemma startsWith_prefix: "startsWith s p \<longleftrightarrow> prefix p s"
  by (induction s p rule: startsWith.induct) auto

lemma includes_str_sublist: "includes_str s sub \<longleftrightarrow> sublist sub s"
  by (induction s) (auto simp: startsWith_prefix sublist_Cons_right)

lemma endsWith_suffix: "endsWith s p \<longleftrightarrow> suffix p s"
  by (simp add: endsWith_def startsWith_prefix suffix_to_prefix)

lemma startsWith_includes: "startsWith s p \<Longrightarrow> includes_str s p"
  by (simp add: startsWith_prefix includes_str_sublist prefix_imp_sublist)

lemma tryUnlink_filter:
  "tryUnlink d file = filter (\<lambda>e. \<not> (fileName e = file \<and> \<not> unlinkRefused d file)) d"
proof (cases "file \<in> set (readdirSync d) \<and> \<not> unlinkRefused d file")
  case True
  then show ?thesis by (simp add: tryUnlink_def unlinkSync_def)
next
  case False
  then have "filter (\<lambda>e. \<not> (fileName e = file \<and> \<not> unlinkRefused d file)) d = d"
    by (intro filter_True) (auto simp: readdirSync_def)
  with False show ?thesis by (auto simp: tryUnlink_def unlinkSync_def)
qed

lemma unlinkRefused_tryUnlink: "unlinkRefused (tryUnlink d file) g = unlinkRefused d g"
  by (auto simp: tryUnlink_filter unlinkRefused_def)

lemma foldl_tryUnlink:
  "foldl tryUnlink d files =
     filter (\<lambda>e. \<not> (fileName e \<in> set files \<and> \<not> unlinkRefused d (fileName e))) d"
proof (induction files arbitrary: d)
  case Nil
  then show ?case by simp
next
  case (Cons f files)
  have "foldl tryUnlink (tryUnlink d f) files =
        filter (\<lambda>e. \<not> (fileName e \<in> set files \<and> \<not> unlinkRefused d (fileName e))) (tryUnlink d f)"
    by (simp add: Cons.IH unlinkRefused_tryUnlink)
  also have "\<dots> = filter (\<lambda>e. \<not> (fileName e \<in> set (f # files) \<and> \<not> unlinkRefused d (fileName e))) d"
    unfolding tryUnlink_filter filter_filter by (rule filter_cong) auto
  finally show ?case by simp
qed

lemma unlinkRefused_foldl: "unlinkRefused (foldl tryUnlink d files) g = unlinkRefused d g"
  by (induction files arbitrary: d) (simp_all add: unlinkRefused_tryUnlink)

lemma unlink_matching:
  "foldl tryUnlink d (filter P (readdirSync d)) =
     filter (\<lambda>e. \<not> (P (fileName e) \<and> \<not> unlinkRefused d (fileName e))) d"
  unfolding foldl_tryUnlink readdirSync_def
  by (rule filter_cong) auto

lemma cleanupTempFiles_filter:
  "cleanupTempFiles t d =
     filter (\<lambda>e. \<not> (isTempFile t (fileName e) \<and> \<not> unlinkRefused d (fileName e))) d"
  by (simp add: cleanupTempFiles_def Let_def unlink_matching)

lemma playlistCleanup_filter:
  "playlistCleanup d =
     filter (\<lambda>e. \<not> (isPlaylistTempFile (fileName e) \<and> \<not> unlinkRefused d (fileName e))) d"
  by (simp add: playlistCleanup_def Let_def unlink_matching)

lemma unlinkRefused_cleanupTempFiles: "unlinkRefused (cleanupTempFiles t d) g = unlinkRefused d g"
  by (simp add: cleanupTempFiles_def Let_def unlinkRefused_foldl)

lemma unlinkRefused_playlistCleanup: "unlinkRefused (playlistCleanup d) g = unlinkRefused d g"
  by (simp add: playlistCleanup_def Let_def unlinkRefused_foldl)

lemma cleanupTempFiles_idem: "cleanupTempFiles t (cleanupTempFiles t d) = cleanupTempFiles t d"
proof -
  have "cleanupTempFiles t (cleanupTempFiles t d) =
        filter (\<lambda>e. \<not> (isTempFile t (fileName e) \<and> \<not> unlinkRefused d (fileName e)))
          (cleanupTempFiles t d)"
    by (subst cleanupTempFiles_filter) (simp add: unlinkRefused_cleanupTempFiles)
  also have "\<dots> = cleanupTempFiles t d"
    by (rule filter_True) (simp add: cleanupTempFiles_filter)
  finally show ?thesis .
qed

lemma playlistCleanup_idem: "playlistCleanup (playlistCleanup d) = playlistCleanup d"
proof -
  have "playlistCleanup (playlistCleanup d) =
        filter (\<lambda>e. \<not> (isPlaylistTempFile (fileName e) \<and> \<not> unlinkRefused d (fileName e)))
          (playlistCleanup d)"
    by (subst playlistCleanup_filter) (simp add: unlinkRefused_playlistCleanup)
  also have "\<dots> = playlistCleanup d"
    by (rule filter_True) (simp add: playlistCleanup_filter)
  finally show ?thesis .
qed

lemma unlinkRefused_entry: "e \<in> set d \<Longrightarrow> \<not> unlinkable e \<Longrightarrow> unlinkRefused d (fileName e)"
  by (auto simp: unlinkRefused_def)

lemma unlinkRefused_distinct:
  "distinct (map fileName d) \<Longrightarrow> e \<in> set d \<Longrightarrow> unlinkRefused d (fileName e) \<longleftrightarrow> \<not> unlinkable e"
  by (auto simp: unlinkRefused_def distinct_map inj_on_def)


lemma find_distinct:
  "distinct (map f d) \<Longrightarrow> e \<in> set d \<Longrightarrow> find (\<lambda>x. f x = f e) d = Some e"
  by (induction d) (auto simp: image_iff)

lemma fileStatsOf_present:
  "set names \<subseteq> set (map fileName d) \<Longrightarrow>
   fileStatsOf d names =
     Some (map (\<lambda>n. (n, fileSize (the (find (\<lambda>e. fileName e = n) d)))) names)"
proof (induction names)
  case Nil
  then show ?case by simp
next
  case (Cons n names)
  then obtain e where "find (\<lambda>e. fileName e = n) d = Some e"
    by (cases "find (\<lambda>e. fileName e = n) d") (auto simp: find_None_iff)
  with Cons show ?case by simp
qed

lemma fileStatsOf_listed:
  assumes "distinct (map fileName d)"
  shows "fileStatsOf d (filter P (readdirSync d)) =
         Some (map (\<lambda>e. (fileName e, fileSize e)) (filter (\<lambda>e. P (fileName e)) d))"
proof -
  have "fileStatsOf d (filter P (map fileName d)) =
        Some (map (\<lambda>n. (n, fileSize (the (find (\<lambda>e. fileName e = n) d))))
                (filter P (map fileName d)))"
    by (rule fileStatsOf_present) auto
  also have "filter P (map fileName d) = map fileName (filter (\<lambda>e. P (fileName e)) d)"
    by (simp add: filter_map comp_def)
  also have "map (\<lambda>n. (n, fileSize (the (find (\<lambda>e. fileName e = n) d))))
               (map fileName (filter (\<lambda>e. P (fileName e)) d)) =
             map (\<lambda>e. (fileName e, fileSize e)) (filter (\<lambda>e. P (fileName e)) d)"
    using assms by (auto simp: find_distinct)
  finally show ?thesis by (simp add: readdirSync_def filter_map comp_def)
qed

lemma foldl_tryUnlink_distinct:
  assumes "distinct (map fileName d)"
  shows "foldl tryUnlink d files = filter (\<lambda>e. \<not> (fileName e \<in> set files \<and> unlinkable e)) d"
  unfolding foldl_tryUnlink
  by (rule filter_cong) (simp_all add: unlinkRefused_distinct [OF assms])

lemma finalCleanup_filter:
  assumes "distinct (readdirSync d)"
  shows "finalCleanup t d =
     filter (\<lambda>e. \<not> (unlinkable e \<and>
                 (isRemaining t (fileName e) \<or>
                  (1 < length (filter (\<lambda>e. isFinalMP4 t (fileName e)) d) \<and>
                   fileName e \<in> set (map fst (drop 1 (sortLargestFirst
                      (map (\<lambda>e. (fileName e, fileSize e))
                         (filter (\<lambda>e. isFinalMP4 t (fileName e)) d))))))))) d"
proof -
  from assms have dist: "distinct (map fileName d)" by (simp add: readdirSync_def)
  let ?xs = "filter (\<lambda>e. isFinalMP4 t (fileName e)) d"
  let ?A = "map fst (drop 1 (sortLargestFirst (map (\<lambda>e. (fileName e, fileSize e)) ?xs)))"
  let ?B = "filter (isRemaining t) (readdirSync d)"
  have len: "length (filter (isFinalMP4 t) (readdirSync d)) = length ?xs"
    by (simp add: readdirSync_def filter_map comp_def)
  have B: "fileName e \<in> set ?B \<longleftrightarrow> isRemaining t (fileName e)" if "e \<in> set d" for e
    using that by (auto simp: readdirSync_def)
  show ?thesis
  proof (cases "1 < length ?xs")
    case True
    then have "finalCleanup t d = foldl tryUnlink d (?A @ ?B)"
      by (simp add: finalCleanup_def Let_def len fileStatsOf_listed [OF dist])
    also have "\<dots> = filter (\<lambda>e. \<not> (fileName e \<in> set (?A @ ?B) \<and> unlinkable e)) d"
      by (rule foldl_tryUnlink_distinct [OF dist])
    also have "\<dots> = filter (\<lambda>e. \<not> (unlinkable e \<and>
                 (isRemaining t (fileName e) \<or> (1 < length ?xs \<and> fileName e \<in> set ?A)))) d"
      using True by (intro filter_cong refl) (auto simp: readdirSync_def)
    finally show ?thesis .
  next
    case False
    then have "finalCleanup t d = foldl tryUnlink d ?B"
      by (simp add: finalCleanup_def Let_def len)
    also have "\<dots> = filter (\<lambda>e. \<not> (fileName e \<in> set ?B \<and> unlinkable e)) d"
      by (rule foldl_tryUnlink_distinct [OF dist])
    also have "\<dots> = filter (\<lambda>e. \<not> (unlinkable e \<and>
                 (isRemaining t (fileName e) \<or> (1 < length ?xs \<and> fileName e \<in> set ?A)))) d"
      using False by (intro filter_cong refl) (auto simp: readdirSync_def)
    finally show ?thesis .
  qed
qed


lemma final_not_remaining: "isFinalMP4 t file \<Longrightarrow> \<not> isRemaining t file"
  by (simp add: isFinalMP4_def isRemaining_def)

lemma sortLargestFirst_hd:
  assumes "ps \<noteq> []"
  shows "hd (sortLargestFirst ps) \<in> set ps"
    and "\<forall>p \<in> set ps. snd p \<le> snd (hd (sortLargestFirst ps))"
proof -
  let ?s = "sortLargestFirst ps"
  have set_s: "set ?s = set ps" by (simp add: sortLargestFirst_def)
  have "length ?s = length ps" by (simp add: sortLargestFirst_def)
  with assms have ne: "?s \<noteq> []" by (metis length_0_conv)
  then obtain a rest where s: "?s = a # rest" by (cases ?s) auto
  with set_s show "hd ?s \<in> set ps" by auto
  have "sorted (map (\<lambda>st. - int (snd st)) ?s)"
    by (simp add: sortLargestFirst_def)
  with s have "\<forall>e \<in> set ?s. - int (snd a) \<le> - int (snd e)"
    by auto
  with s set_s show "\<forall>p \<in> set ps. snd p \<le> snd (hd ?s)" by auto
qed

lemma sortLargestFirst_split:
  assumes "ps \<noteq> []" and "distinct (map fst ps)"
  shows "set (map fst (drop 1 (sortLargestFirst ps))) =
         set (map fst ps) - {fst (hd (sortLargestFirst ps))}"
proof -
  let ?s = "sortLargestFirst ps"
  have set_s: "set ?s = set ps" by (simp add: sortLargestFirst_def)
  have "length ?s = length ps" by (simp add: sortLargestFirst_def)
  with assms have ne: "?s \<noteq> []" by (metis length_0_conv)
  then obtain a rest where s: "?s = a # rest" by (cases ?s) auto
  have ds: "distinct (map fst ?s)"
    using assms(2) by (simp add: sortLargestFirst_def distinct_map set_s)
  from s ds have "fst a \<notin> set (map fst rest)" by simp
  moreover from s set_s have "set (map fst ps) = insert (fst a) (set (map fst rest))"
    by (metis list.simps(15) list.simps(9) set_map)
  ultimately show ?thesis using s by auto
qed

text \<open>The entry a final pass keeps, and what else may stay.\<close>

lemma finalCleanup_kept:
  assumes dist: "distinct (readdirSync d)"
    and ne: "filter (\<lambda>e. isFinalMP4 t (fileName e)) d \<noteq> []"
  shows "\<exists>k. k \<in> set d \<and> isFinalMP4 t (fileName k)
            \<and> (fileName k, fileSize k) =
                hd (sortLargestFirst (map (\<lambda>e. (fileName e, fileSize e))
                      (filter (\<lambda>e. isFinalMP4 t (fileName e)) d)))
            \<and> (\<forall>e \<in> set d. isFinalMP4 t (fileName e) \<longrightarrow> fileSize e \<le> fileSize k)
            \<and> k \<in> set (finalCleanup t d)
            \<and> (\<forall>e \<in> set (finalCleanup t d).
                  isFinalMP4 t (fileName e) \<longrightarrow> e = k \<or> \<not> unlinkable e)"
proof -
  let ?xs = "filter (\<lambda>e. isFinalMP4 t (fileName e)) d"
  let ?ps = "map (\<lambda>e. (fileName e, fileSize e)) ?xs"
  let ?s = "sortLargestFirst ?ps"
  from dist have dm: "distinct (map fileName d)" by (simp add: readdirSync_def)
  have inj: "e = e'" if "e \<in> set d" "e' \<in> set d" "fileName e = fileName e'" for e e'
    using dm that by (auto simp: distinct_map inj_on_def)
  from ne have pne: "?ps \<noteq> []" by simp
  have dps: "distinct (map fst ?ps)"
    using dm by (simp add: comp_def distinct_map_filter)
  from sortLargestFirst_hd [OF pne] obtain k where k: "k \<in> set ?xs"
    and hd: "(fileName k, fileSize k) = hd ?s"
    and big: "\<forall>p \<in> set ?ps. snd p \<le> snd (hd ?s)"
    by auto
  from big hd have largest: "\<forall>e \<in> set d. isFinalMP4 t (fileName e) \<longrightarrow> fileSize e \<le> fileSize k"
    by (auto simp: fst_eq_Domain) (metis snd_conv)
  have tail: "set (map fst (drop 1 ?s)) = set (map fst ?ps) - {fileName k}"
    using sortLargestFirst_split [OF pne dps] hd by (metis fst_conv)
  have k_in: "k \<in> set (finalCleanup t d)"
    using k tail by (simp add: finalCleanup_filter [OF dist] final_not_remaining)
  have others: "e = k \<or> \<not> unlinkable e"
    if e: "e \<in> set (finalCleanup t d)" and f: "isFinalMP4 t (fileName e)" for e
  proof (cases "unlinkable e")
    case False
    then show ?thesis by simp
  next
    case True
    from e have ed: "e \<in> set d" by (simp add: finalCleanup_filter [OF dist])
    with f have exs: "e \<in> set ?xs" by simp
    show ?thesis
    proof (cases "1 < length ?xs")
      case False
      with ne obtain x where "?xs = [x]" by (cases ?xs; cases "tl ?xs") auto
      with exs k show ?thesis by simp
    next
      case long: True
      from e True long have "fileName e \<notin> set (map fst (drop 1 ?s))"
        by (simp add: finalCleanup_filter [OF dist])
      with tail exs have "fileName e = fileName k" by auto
      with inj [OF ed] k show ?thesis by simp
    qed
  qed
  from k hd largest k_in others show ?thesis by auto
qed


lemma remaining_webm: "isRemaining t (t @ js ''.webm'')"
  by (simp add: isRemaining_def startsWith_includes startsWith_prefix) (simp add: endsWith_def js_def)

lemma remaining_m4a: "isRemaining t (t @ js ''.f140.m4a'')"
  by (simp add: isRemaining_def startsWith_includes startsWith_prefix) (simp add: endsWith_def js_def)

lemma final_mp4: "isFinalMP4 t (t @ js ''.mp4'')"
  by (simp add: isFinalMP4_def startsWith_prefix endsWith_suffix suffix_def)

lemma same_key_short: "distinct (map f xs) \<Longrightarrow> \<forall>e \<in> set xs. f e = c \<Longrightarrow> length xs \<le> 1"
  by (cases xs; cases "tl xs") auto

lemma distinct_singleton: "distinct ys \<Longrightarrow> set ys = {x} \<Longrightarrow> ys = [x]"
  by (cases ys; cases "tl ys") auto

text \<open>
  C4. In a directory whose names starting with the sanitized title are exactly
  \<^verbatim>\<open>title.webm\<close>, \<^verbatim>\<open>title.f140.m4a\<close> and \<^verbatim>\<open>title.mp4\<close>, and where \<^verbatim>\<open>fs.unlinkSync\<close> can
  remove the first two, the final pass removes them and leaves \<^verbatim>\<open>title.mp4\<close> as the only
  name with the prefix, its entry untouched. In general, when some name starts with the
  title and ends in \<^verbatim>\<open>.mp4\<close>, a largest such entry is kept; any other such entry that is
  left is one that cannot be unlinked, and when all of them can be unlinked exactly one
  is left. Nothing is added; an entry left that contains the title without ending in
  \<^verbatim>\<open>.mp4\<close> is one that cannot be unlinked; and an entry that does not contain the title
  stays.
\<close>

theorem final_cleanup_keeps_largest_mp4:
  assumes dist: "distinct (readdirSync d)"
  shows "(set (filter (\<lambda>file. startsWith file t) (readdirSync d)) =
            {t @ js ''.webm'', t @ js ''.f140.m4a'', t @ js ''.mp4''}
          \<and> (\<forall>e \<in> set d. fileName e = t @ js ''.webm'' \<or> fileName e = t @ js ''.f140.m4a''
                \<longrightarrow> unlinkable e) \<longrightarrow>
          t @ js ''.webm'' \<notin> set (readdirSync (finalCleanup t d))
          \<and> t @ js ''.f140.m4a'' \<notin> set (readdirSync (finalCleanup t d))
          \<and> filter (\<lambda>file. startsWith file t) (readdirSync (finalCleanup t d)) = [t @ js ''.mp4'']
          \<and> (\<forall>e \<in> set d. fileName e = t @ js ''.mp4'' \<longrightarrow> e \<in> set (finalCleanup t d)))
       \<and> (filter (\<lambda>e. isFinalMP4 t (fileName e)) d \<noteq> [] \<longrightarrow>
            (\<exists>k. k \<in> set d \<and> isFinalMP4 t (fileName k)
                 \<and> (\<forall>e \<in> set d. isFinalMP4 t (fileName e) \<longrightarrow> fileSize e \<le> fileSize k)
                 \<and> k \<in> set (finalCleanup t d)
                 \<and> (\<forall>e \<in> set (finalCleanup t d).
                       isFinalMP4 t (fileName e) \<longrightarrow> e = k \<or> \<not> unlinkable e)
                 \<and> ((\<forall>e \<in> set d. isFinalMP4 t (fileName e) \<longrightarrow> unlinkable e) \<longrightarrow>
                       filter (\<lambda>e. isFinalMP4 t (fileName e)) (finalCleanup t d) = [k])))
       \<and> (\<forall>e \<in> set (finalCleanup t d).
             e \<in> set d \<and> (isRemaining t (fileName e) \<longrightarrow> \<not> unlinkable e))
       \<and> (\<forall>e \<in> set d. \<not> includes_str (fileName e) t \<longrightarrow> e \<in> set (finalCleanup t d))"
proof -
  let ?r = "finalCleanup t d"
  let ?xs = "filter (\<lambda>e. isFinalMP4 t (fileName e)) d"
  let ?s = "sortLargestFirst (map (\<lambda>e. (fileName e, fileSize e)) ?xs)"
  from dist have dm: "distinct (map fileName d)" by (simp add: readdirSync_def)
  then have dd: "distinct d" by (simp add: distinct_map)
  have mem: "e \<in> set ?r \<longleftrightarrow>
      e \<in> set d \<and> \<not> (unlinkable e \<and> (isRemaining t (fileName e) \<or>
        (1 < length ?xs \<and> fileName e \<in> set (map fst (drop 1 ?s)))))" for e
    by (subst finalCleanup_filter [OF dist]) simp
  have sub: "\<forall>e \<in> set ?r. e \<in> set d \<and> (isRemaining t (fileName e) \<longrightarrow> \<not> unlinkable e)"
    using mem by blast
  have drop_sub: "set (map fst (drop 1 ?s)) \<subseteq> set (map fileName ?xs)"
  proof -
    have "set (drop 1 ?s) \<subseteq> set ?s" by (rule set_drop_subset)
    also have "set ?s = set (map (\<lambda>e. (fileName e, fileSize e)) ?xs)"
      by (simp add: sortLargestFirst_def)
    finally show ?thesis by auto
  qed
  have others: "\<forall>e \<in> set d. \<not> includes_str (fileName e) t \<longrightarrow> e \<in> set ?r"
  proof (intro ballI impI)
    fix e assume e: "e \<in> set d" and n: "\<not> includes_str (fileName e) t"
    from n have "\<not> isRemaining t (fileName e)" "\<not> isFinalMP4 t (fileName e)"
      by (auto simp: isRemaining_def isFinalMP4_def dest: startsWith_includes)
    with drop_sub have "fileName e \<notin> set (map fst (drop 1 ?s))" by auto
    with e \<open>\<not> isRemaining t (fileName e)\<close> show "e \<in> set ?r"
      using mem by blast
  qed
  have general: "\<exists>k. k \<in> set d \<and> isFinalMP4 t (fileName k)
                 \<and> (\<forall>e \<in> set d. isFinalMP4 t (fileName e) \<longrightarrow> fileSize e \<le> fileSize k)
                 \<and> k \<in> set ?r
                 \<and> (\<forall>e \<in> set ?r. isFinalMP4 t (fileName e) \<longrightarrow> e = k \<or> \<not> unlinkable e)
                 \<and> ((\<forall>e \<in> set d. isFinalMP4 t (fileName e) \<longrightarrow> unlinkable e) \<longrightarrow>
                       filter (\<lambda>e. isFinalMP4 t (fileName e)) ?r = [k])"
    if ne: "?xs \<noteq> []"
  proof -
    from finalCleanup_kept [OF dist ne] obtain k where k: "k \<in> set d" "isFinalMP4 t (fileName k)"
      and largest: "\<forall>e \<in> set d. isFinalMP4 t (fileName e) \<longrightarrow> fileSize e \<le> fileSize k"
      and k_in: "k \<in> set ?r"
      and rest: "\<forall>e \<in> set ?r. isFinalMP4 t (fileName e) \<longrightarrow> e = k \<or> \<not> unlinkable e"
      by blast
    have single: "filter (\<lambda>e. isFinalMP4 t (fileName e)) ?r = [k]"
      if files: "\<forall>e \<in> set d. isFinalMP4 t (fileName e) \<longrightarrow> unlinkable e"
    proof (rule distinct_singleton)
      show "distinct (filter (\<lambda>e. isFinalMP4 t (fileName e)) ?r)"
        using dd by (simp add: finalCleanup_filter [OF dist])
      have uniq: "e = k" if "e \<in> set ?r" "isFinalMP4 t (fileName e)" for e
        using that rest sub files by blast
      show "set (filter (\<lambda>e. isFinalMP4 t (fileName e)) ?r) = {k}"
      proof (intro equalityI subsetI)
        fix e assume "e \<in> set (filter (\<lambda>e. isFinalMP4 t (fileName e)) ?r)"
        then have "e \<in> set ?r" "isFinalMP4 t (fileName e)" by simp_all
        then show "e \<in> {k}" using uniq by simp
      next
        fix e assume "e \<in> {k}"
        with k k_in show "e \<in> set (filter (\<lambda>e. isFinalMP4 t (fileName e)) ?r)" by simp
      qed
    qed
    from k largest k_in rest single show ?thesis by blast
  qed
  have specific: "t @ js ''.webm'' \<notin> set (readdirSync ?r)
          \<and> t @ js ''.f140.m4a'' \<notin> set (readdirSync ?r)
          \<and> filter (\<lambda>file. startsWith file t) (readdirSync ?r) = [t @ js ''.mp4'']
          \<and> (\<forall>e \<in> set d. fileName e = t @ js ''.mp4'' \<longrightarrow> e \<in> set ?r)"
    if H: "set (filter (\<lambda>file. startsWith file t) (readdirSync d)) =
            {t @ js ''.webm'', t @ js ''.f140.m4a'', t @ js ''.mp4''}"
      and files: "\<forall>e \<in> set d. fileName e = t @ js ''.webm'' \<or> fileName e = t @ js ''.f140.m4a''
                \<longrightarrow> unlinkable e"
  proof -
    have three: "f \<in> {t @ js ''.webm'', t @ js ''.f140.m4a'', t @ js ''.mp4''}"
      if "f \<in> set (map fileName d)" "startsWith f t" for f
      using that H by (auto simp: readdirSync_def)
    have only: "fileName e = t @ js ''.mp4''" if "e \<in> set ?xs" for e
    proof -
      from that have "fileName e \<in> set (map fileName d)" "startsWith (fileName e) t"
        "\<not> isRemaining t (fileName e)"
        by (auto simp: isFinalMP4_def final_not_remaining)
      with three [of "fileName e"] remaining_webm [of t] remaining_m4a [of t] show ?thesis
        by auto
    qed
    have "distinct (map fileName ?xs)" using dm by (simp add: distinct_map_filter)
    moreover have "\<forall>e \<in> set ?xs. fileName e = t @ js ''.mp4''" using only by blast
    ultimately have short: "length ?xs \<le> 1"
      by (rule same_key_short)
    then have not_long: "\<not> 1 < length ?xs" by simp
    have r: "?r = filter (\<lambda>e. \<not> (unlinkable e \<and> isRemaining t (fileName e))) d"
      by (subst finalCleanup_filter [OF dist]) (simp only: not_long simp_thms)
    have gone: "f \<notin> set (readdirSync ?r)"
      if "f = t @ js ''.webm'' \<or> f = t @ js ''.f140.m4a''" for f
    proof
      assume "f \<in> set (readdirSync ?r)"
      then obtain e where e: "e \<in> set ?r" "fileName e = f" by (auto simp: readdirSync_def)
      with sub have "e \<in> set d" "isRemaining t f \<longrightarrow> \<not> unlinkable e" by auto
      moreover from that have "isRemaining t f"
        using remaining_webm [of t] remaining_m4a [of t] by auto
      moreover from files \<open>e \<in> set d\<close> e that have "unlinkable e" by auto
      ultimately show False by simp
    qed
    have kept: "\<forall>e \<in> set d. fileName e = t @ js ''.mp4'' \<longrightarrow> e \<in> set ?r"
      using final_mp4 [of t] by (auto simp: r final_not_remaining)
    have "t @ js ''.mp4'' \<in> set (filter (\<lambda>file. startsWith file t) (readdirSync d))"
      using H by simp
    then obtain e where e: "e \<in> set d" "fileName e = t @ js ''.mp4''"
      by (auto simp: readdirSync_def)
    with kept have in_r: "t @ js ''.mp4'' \<in> set (readdirSync ?r)"
      by (force simp: readdirSync_def)
    have dr: "distinct (filter (\<lambda>file. startsWith file t) (readdirSync ?r))"
      using dm by (simp add: r readdirSync_def distinct_map_filter)
    have "set (filter (\<lambda>file. startsWith file t) (readdirSync ?r)) = {t @ js ''.mp4''}"
    proof (intro equalityI subsetI)
      fix f assume a: "f \<in> set (filter (\<lambda>file. startsWith file t) (readdirSync ?r))"
      then obtain e' where e': "e' \<in> set ?r" "fileName e' = f" and st: "startsWith f t"
        by (auto simp: readdirSync_def)
      with sub have "f \<in> set (map fileName d)" by auto
      with three [of f] st gone [of f] a show "f \<in> {t @ js ''.mp4''}"
        by auto
    next
      fix f assume "f \<in> {t @ js ''.mp4''}"
      with in_r final_mp4 [of t] show "f \<in> set (filter (\<lambda>file. startsWith file t) (readdirSync ?r))"
        by (simp add: isFinalMP4_def)
    qed
    with dr have "filter (\<lambda>file. startsWith file t) (readdirSync ?r) = [t @ js ''.mp4'']"
      by (rule distinct_singleton)
    with gone kept show ?thesis by blast
  qed
  from specific general sub others show ?thesis by blast
qed

text \<open>The definitions a pass unfolds to on a concrete directory.\<close>

lemmas eval_cleanup =
  cleanupTempFiles_def playlistCleanup_def finalCleanup_def readdirSync_def tryUnlink_def
  unlinkSync_def unlinkRefused_def isTempFile_def isPlaylistTempFile_def isFinalMP4_def
  isRemaining_def sortLargestFirst_def endsWith_def js_def Let_def

text \<open>The directory of the claim, one with two final files, where the larger is kept, and
  one with a \<^verbatim>\<open>title.webm\<close> that cannot be unlinked, which stays.\<close>

theorem final_cleanup_keeps_largest_mp4_witness:
  "distinct (readdirSync
      [\<lparr>fileName = js ''title.webm'', fileSize = 5, unlinkable = True\<rparr>,
       \<lparr>fileName = js ''title.f140.m4a'', fileSize = 3, unlinkable = True\<rparr>,
       \<lparr>fileName = js ''title.mp4'', fileSize = 10, unlinkable = True\<rparr>])
   \<and> set (filter (\<lambda>file. startsWith file (js ''title''))
        (readdirSync
          [\<lparr>fileName = js ''title.webm'', fileSize = 5, unlinkable = True\<rparr>,
           \<lparr>fileName = js ''title.f140.m4a'', fileSize = 3, unlinkable = True\<rparr>,
           \<lparr>fileName = js ''title.mp4'', fileSize = 10, unlinkable = True\<rparr>])) =
       {js ''title'' @ js ''.webm'', js ''title'' @ js ''.f140.m4a'', js ''title'' @ js ''.mp4''}
   \<and> filter (\<lambda>file. startsWith file (js ''title''))
        (readdirSync (finalCleanup (js ''title'')
          [\<lparr>fileName = js ''title.webm'', fileSize = 5, unlinkable = True\<rparr>,
           \<lparr>fileName = js ''title.f140.m4a'', fileSize = 3, unlinkable = True\<rparr>,
           \<lparr>fileName = js ''title.mp4'', fileSize = 10, unlinkable = True\<rparr>])) =
       [js ''title'' @ js ''.mp4'']
   \<and> finalCleanup (js ''title'')
          [\<lparr>fileName = js ''title.webm'', fileSize = 5, unlinkable = True\<rparr>,
           \<lparr>fileName = js ''title.f140.m4a'', fileSize = 3, unlinkable = True\<rparr>,
           \<lparr>fileName = js ''title.mp4'', fileSize = 10, unlinkable = True\<rparr>] =
       [\<lparr>fileName = js ''title.mp4'', fileSize = 10, unlinkable = True\<rparr>]
   \<and> distinct (readdirSync
          [\<lparr>fileName = js ''title.mp4'', fileSize = 5, unlinkable = True\<rparr>,
           \<lparr>fileName = js ''title_1.mp4'', fileSize = 9, unlinkable = True\<rparr>,
           \<lparr>fileName = js ''title.webm'', fileSize = 1, unlinkable = True\<rparr>])
   \<and> filter (\<lambda>e. isFinalMP4 (js ''title'') (fileName e))
          [\<lparr>fileName = js ''title.mp4'', fileSize = 5, unlinkable = True\<rparr>,
           \<lparr>fileName = js ''title_1.mp4'', fileSize = 9, unlinkable = True\<rparr>,
           \<lparr>fileName = js ''title.webm'', fileSize = 1, unlinkable = True\<rparr>] \<noteq> []
   \<and> (\<exists>k. filter (\<lambda>e. isFinalMP4 (js ''title'') (fileName e))
             (finalCleanup (js ''title'')
                [\<lparr>fileName = js ''title.mp4'', fileSize = 5, unlinkable = True\<rparr>,
                 \<lparr>fileName = js ''title_1.mp4'', fileSize = 9, unlinkable = True\<rparr>,
                 \<lparr>fileName = js ''title.webm'', fileSize = 1, unlinkable = True\<rparr>]) = [k])
   \<and> finalCleanup (js ''title'')
          [\<lparr>fileName = js ''title.mp4'', fileSize = 5, unlinkable = True\<rparr>,
           \<lparr>fileName = js ''title_1.mp4'', fileSize = 9, unlinkable = True\<rparr>,
           \<lparr>fileName = js ''title.webm'', fileSize = 1, unlinkable = True\<rparr>] =
       [\<lparr>fileName = js ''title_1.mp4'', fileSize = 9, unlinkable = True\<rparr>]
   \<and> finalCleanup (js ''title'')
          [\<lparr>fileName = js ''title.mp4'', fileSize = 5, unlinkable = True\<rparr>,
           \<lparr>fileName = js ''title.webm'', fileSize = 0, unlinkable = False\<rparr>] =
       [\<lparr>fileName = js ''title.mp4'', fileSize = 5, unlinkable = True\<rparr>,
        \<lparr>fileName = js ''title.webm'', fileSize = 0, unlinkable = False\<rparr>]"
proof -
  let ?d = "[\<lparr>fileName = js ''title.webm'', fileSize = 5, unlinkable = True\<rparr>,
           \<lparr>fileName = js ''title.f140.m4a'', fileSize = 3, unlinkable = True\<rparr>,
           \<lparr>fileName = js ''title.mp4'', fileSize = 10, unlinkable = True\<rparr>]"
  let ?d2 = "[\<lparr>fileName = js ''title.mp4'', fileSize = 5, unlinkable = True\<rparr>,
           \<lparr>fileName = js ''title_1.mp4'', fileSize = 9, unlinkable = True\<rparr>,
           \<lparr>fileName = js ''title.webm'', fileSize = 1, unlinkable = True\<rparr>]"
  let ?d3 = "[\<lparr>fileName = js ''title.mp4'', fileSize = 5, unlinkable = True\<rparr>,
           \<lparr>fileName = js ''title.webm'', fileSize = 0, unlinkable = False\<rparr>]"
  let ?t = "js ''title''"
  have dist: "distinct (readdirSync ?d)"
    by (simp add: readdirSync_def js_def)
  have three: "set (filter (\<lambda>file. startsWith file ?t) (readdirSync ?d)) =
       {?t @ js ''.webm'', ?t @ js ''.f140.m4a'', ?t @ js ''.mp4''}"
    by (simp add: readdirSync_def js_def)
  have files: "\<forall>e \<in> set ?d. fileName e = ?t @ js ''.webm'' \<or> fileName e = ?t @ js ''.f140.m4a''
      \<longrightarrow> unlinkable e"
    by simp
  have run: "finalCleanup ?t ?d = [\<lparr>fileName = js ''title.mp4'', fileSize = 10, unlinkable = True\<rparr>]"
    by (simp add: eval_cleanup)
  have dist2: "distinct (readdirSync ?d2)"
    by (simp add: readdirSync_def js_def)
  have ne2: "filter (\<lambda>e. isFinalMP4 ?t (fileName e)) ?d2 \<noteq> []"
    by (simp add: isFinalMP4_def endsWith_def js_def)
  have files2: "\<forall>e \<in> set ?d2. isFinalMP4 ?t (fileName e) \<longrightarrow> unlinkable e"
    by simp
  have run2: "finalCleanup ?t ?d2 = [\<lparr>fileName = js ''title_1.mp4'', fileSize = 9, unlinkable = True\<rparr>]"
    by (simp add: eval_cleanup)
  have run3: "finalCleanup ?t ?d3 = ?d3"
    by (simp add: eval_cleanup)
  from final_cleanup_keeps_largest_mp4 [OF dist, of ?t] three files
  have only: "filter (\<lambda>file. startsWith file ?t) (readdirSync (finalCleanup ?t ?d)) = [?t @ js ''.mp4'']"
    by blast
  from final_cleanup_keeps_largest_mp4 [OF dist2, of ?t] ne2 files2
  have one: "\<exists>k. filter (\<lambda>e. isFinalMP4 ?t (fileName e)) (finalCleanup ?t ?d2) = [k]"
    by blast
  from dist three only run dist2 ne2 one run2 run3 show ?thesis
    by blast
qed

text \<open>A second final pass finds the directory as the first has left it.\<close>

lemma hd_sort_key_filter:
  assumes ne: "xs \<noteq> []" and Q: "Q (hd (sort_key f xs))"
  shows "hd (sort_key f (filter Q xs)) = hd (sort_key f xs)"
proof -
  let ?s = "sort_key f xs"
  let ?ys = "filter Q xs"
  let ?s' = "sort_key f ?ys"
  have "length ?s = length xs" by simp
  with ne have "?s \<noteq> []" by (metis length_0_conv)
  then obtain h rest where s: "?s = h # rest" by (cases ?s) auto
  have h_xs: "h \<in> set xs" using s by (metis list.set_intros(1) set_sort)
  with Q s have h_ys: "h \<in> set ?ys" by simp
  have "length ?s' = length ?ys" by simp
  with h_ys have "?s' \<noteq> []" by (metis length_0_conv empty_iff empty_set)
  then obtain h' rest' where s': "?s' = h' # rest'" by (cases ?s') auto
  have low: "\<forall>y \<in> set xs. f h \<le> f y"
  proof -
    have "sorted (map f ?s)" by simp
    with s have "\<forall>y \<in> set ?s. f h \<le> f y" by auto
    then show ?thesis by simp
  qed
  have low': "\<forall>y \<in> set ?ys. f h' \<le> f y"
  proof -
    have "sorted (map f ?s')" by (rule sorted_sort_key)
    with s' have "\<forall>y \<in> set ?s'. f h' \<le> f y" by auto
    then show ?thesis by simp
  qed
  have "h' \<in> set ?ys" using s' by (metis list.set_intros(1) set_sort)
  then have "h' \<in> set xs" by simp
  with low low' h_ys have key: "f h' = f h" by force
  have a: "filter (\<lambda>y. f y = f h) xs = h # filter (\<lambda>y. f y = f h) rest"
    using sort_key_stable [of f "f h" xs] s by simp
  have "filter (\<lambda>y. f y = f h) ?s' = filter (\<lambda>y. f y = f h) ?ys"
    by (rule sort_key_stable)
  also have "\<dots> = filter Q (filter (\<lambda>y. f y = f h) xs)"
    by (simp add: conj_commute)
  also have "\<dots> = h # filter Q (filter (\<lambda>y. f y = f h) rest)"
    using Q s by (simp add: a)
  finally have "filter (\<lambda>y. f y = f h) ?s' = h # filter Q (filter (\<lambda>y. f y = f h) rest)" .
  with s' key have "h' = h" by simp
  with s s' show ?thesis by simp
qed

lemma finalCleanup_idempotent:
  assumes dist: "distinct (readdirSync d)"
  shows "finalCleanup t (finalCleanup t d) = finalCleanup t d"
proof -
  let ?r = "finalCleanup t d"
  let ?P = "\<lambda>e. isFinalMP4 t (fileName e)"
  let ?pair = "\<lambda>e. (fileName e, fileSize e)"
  let ?xs = "filter ?P d"
  let ?xs' = "filter ?P ?r"
  let ?s = "sortLargestFirst (map ?pair ?xs)"
  let ?s' = "sortLargestFirst (map ?pair ?xs')"
  from dist have dm: "distinct (map fileName d)" by (simp add: readdirSync_def)
  have inj: "e = e'" if "e \<in> set d" "e' \<in> set d" "fileName e = fileName e'" for e e'
    using dm that by (auto simp: distinct_map inj_on_def)
  have r_filter: "\<exists>R. ?r = filter R d"
    by (subst finalCleanup_filter [OF dist]) blast
  then obtain R where R: "?r = filter R d" by blast
  have dr: "distinct (readdirSync ?r)"
    using dm by (simp add: R readdirSync_def distinct_map_filter)
  have mem: "e \<in> set ?r \<longleftrightarrow>
      e \<in> set d \<and> \<not> (unlinkable e \<and> (isRemaining t (fileName e) \<or>
        (1 < length ?xs \<and> fileName e \<in> set (map fst (drop 1 ?s)))))" for e
    by (subst finalCleanup_filter [OF dist]) simp
  have xs': "?xs' = filter R ?xs"
    by (simp add: R conj_commute)
  have stays: "\<not> (unlinkable e \<and> (isRemaining t (fileName e) \<or>
        (1 < length ?xs' \<and> fileName e \<in> set (map fst (drop 1 ?s')))))"
    if e: "e \<in> set ?r" for e
  proof
    assume a: "unlinkable e \<and> (isRemaining t (fileName e) \<or>
        (1 < length ?xs' \<and> fileName e \<in> set (map fst (drop 1 ?s'))))"
    from e mem have ed: "e \<in> set d" by blast
    from a e mem have nr: "\<not> isRemaining t (fileName e)" by blast
    with a have long': "1 < length ?xs'" and tl: "fileName e \<in> set (map fst (drop 1 ?s'))"
      by blast+
    from long' have ne': "?xs' \<noteq> []" by auto
    then have ne: "?xs \<noteq> []" unfolding xs' by (metis filter.simps(1))
    from finalCleanup_kept [OF dist ne] obtain k where k: "k \<in> set d" "?P k"
      and hd: "?pair k = hd ?s"
      and k_in: "k \<in> set ?r"
      and rest: "\<forall>e \<in> set ?r. ?P e \<longrightarrow> e = k \<or> \<not> unlinkable e"
      by blast
    have "set (drop 1 ?s') \<subseteq> set ?s'" by (rule set_drop_subset)
    also have "set ?s' = set (map ?pair ?xs')" by (simp add: sortLargestFirst_def)
    finally have "set (map fst (drop 1 ?s')) \<subseteq> set (map fileName ?xs')" by auto
    with tl obtain e' where e': "e' \<in> set ?xs'" "fileName e' = fileName e" by auto
    then have "e' \<in> set ?r" "?P e'" by simp_all
    with mem have "e' \<in> set d" by blast
    from inj [OF this ed e'(2)] have "e' = e" .
    with \<open>e' \<in> set ?r\<close> \<open>?P e'\<close> rest a have ek: "e = k" by blast
    have k_xs': "k \<in> set ?xs'" using k k_in by simp
    have pm: "map ?pair ?xs' = filter (\<lambda>p. fst p \<in> fileName ` set ?xs') (map ?pair ?xs)"
    proof -
      have "filter (\<lambda>p. fst p \<in> fileName ` set ?xs') (map ?pair ?xs) =
            map ?pair (filter (\<lambda>e. fileName e \<in> fileName ` set ?xs') ?xs)"
        by (simp add: filter_map comp_def)
      also have "filter (\<lambda>e. fileName e \<in> fileName ` set ?xs') ?xs = filter R ?xs"
      proof (rule filter_cong [OF refl])
        fix x assume x: "x \<in> set ?xs"
        show "(fileName x \<in> fileName ` set ?xs') = R x"
        proof
          assume "fileName x \<in> fileName ` set ?xs'"
          then obtain y where y: "y \<in> set ?xs'" "fileName x = fileName y" by auto
          then have "y \<in> set d" "R y" by (simp_all add: R)
          with x y inj [of x y] show "R x" by simp
        next
          assume "R x"
          with x show "fileName x \<in> fileName ` set ?xs'" by (simp add: R)
        qed
      qed
      finally show ?thesis by (simp add: xs')
    qed
    have "hd ?s' = hd ?s"
      unfolding pm sortLargestFirst_def
    proof (rule hd_sort_key_filter)
      show "map ?pair ?xs \<noteq> []" using ne by simp
      show "fst (hd (sort_key (\<lambda>st. - int (snd st)) (map ?pair ?xs))) \<in> fileName ` set ?xs'"
        using hd k_xs' unfolding sortLargestFirst_def by (metis fst_conv imageI)
    qed
    with hd have hd': "fst (hd ?s') = fileName k" by (metis fst_conv)
    have pne': "map ?pair ?xs' \<noteq> []" using ne' by simp
    have dps': "distinct (map fst (map ?pair ?xs'))"
      using dm by (simp add: comp_def R distinct_map_filter)
    from sortLargestFirst_split [OF pne' dps'] hd'
    have "fileName k \<notin> set (map fst (drop 1 ?s'))" by simp
    with tl ek show False by simp
  qed
  have "finalCleanup t ?r =
        filter (\<lambda>e. \<not> (unlinkable e \<and> (isRemaining t (fileName e) \<or>
          (1 < length ?xs' \<and> fileName e \<in> set (map fst (drop 1 ?s')))))) ?r"
    by (rule finalCleanup_filter [OF dr])
  also have "\<dots> = ?r"
    by (rule filter_True) (use stays in blast)
  finally show ?thesis .
qed

text \<open>
  C8. A temp-file pass on a directory with no entry that matches its criteria leaves the
  directory as it is, and a second pass changes nothing after a first. A pass adds
  nothing, and a matching entry it leaves is one that \<^verbatim>\<open>fs.unlinkSync\<close> refused to remove;
  when every matching entry can be unlinked, no entry matches after the pass. The same
  holds of the pass of \<^verbatim>\<open>handlePlaylistDownload\<close>, and a second final pass changes nothing
  either.
\<close>

theorem cleanup_pass_idempotent:
  "((\<forall>file \<in> set (readdirSync d). \<not> isTempFile t file) \<longrightarrow> cleanupTempFiles t d = d)
   \<and> cleanupTempFiles t (cleanupTempFiles t d) = cleanupTempFiles t d
   \<and> (\<forall>e \<in> set (cleanupTempFiles t d).
         e \<in> set d \<and> (isTempFile t (fileName e) \<longrightarrow> unlinkRefused d (fileName e)))
   \<and> ((\<forall>e \<in> set d. isTempFile t (fileName e) \<longrightarrow> unlinkable e) \<longrightarrow>
        (\<forall>file \<in> set (readdirSync (cleanupTempFiles t d)). \<not> isTempFile t file))
   \<and> ((\<forall>file \<in> set (readdirSync d). \<not> isPlaylistTempFile file) \<longrightarrow> playlistCleanup d = d)
   \<and> playlistCleanup (playlistCleanup d) = playlistCleanup d
   \<and> ((\<forall>e \<in> set d. isPlaylistTempFile (fileName e) \<longrightarrow> unlinkable e) \<longrightarrow>
        (\<forall>file \<in> set (readdirSync (playlistCleanup d)). \<not> isPlaylistTempFile file))
   \<and> (distinct (readdirSync d) \<longrightarrow> finalCleanup t (finalCleanup t d) = finalCleanup t d)"
proof -
  have a: "(\<forall>file \<in> set (readdirSync d). \<not> isTempFile t file) \<longrightarrow> cleanupTempFiles t d = d"
    by (simp add: cleanupTempFiles_filter readdirSync_def)
  have b: "\<forall>e \<in> set (cleanupTempFiles t d).
         e \<in> set d \<and> (isTempFile t (fileName e) \<longrightarrow> unlinkRefused d (fileName e))"
    by (simp add: cleanupTempFiles_filter)
  have c: "(\<forall>e \<in> set d. isTempFile t (fileName e) \<longrightarrow> unlinkable e) \<longrightarrow>
        (\<forall>file \<in> set (readdirSync (cleanupTempFiles t d)). \<not> isTempFile t file)"
    using b by (fastforce simp: readdirSync_def unlinkRefused_def)
  have a': "(\<forall>file \<in> set (readdirSync d). \<not> isPlaylistTempFile file) \<longrightarrow> playlistCleanup d = d"
    by (simp add: playlistCleanup_filter readdirSync_def)
  have b': "\<forall>e \<in> set (playlistCleanup d).
         e \<in> set d \<and> (isPlaylistTempFile (fileName e) \<longrightarrow> unlinkRefused d (fileName e))"
    by (simp add: playlistCleanup_filter)
  have c': "(\<forall>e \<in> set d. isPlaylistTempFile (fileName e) \<longrightarrow> unlinkable e) \<longrightarrow>
        (\<forall>file \<in> set (readdirSync (playlistCleanup d)). \<not> isPlaylistTempFile file)"
    using b' by (fastforce simp: readdirSync_def unlinkRefused_def)
  from a b c a' c' cleanupTempFiles_idem [of t d] playlistCleanup_idem [of d]
    finalCleanup_idempotent [of d t]
  show ?thesis by blast
qed

text \<open>A directory with nothing to clean, one with a partial download and a
  \<^verbatim>\<open>t.temp\<close> that cannot be unlinked, and one where all that matches can be unlinked.\<close>

theorem cleanup_pass_idempotent_witness:
  "readdirSync [\<lparr>fileName = js ''t.mp4'', fileSize = 10, unlinkable = True\<rparr>] = [js ''t.mp4'']
   \<and> \<not> isTempFile (js ''t'') (js ''t.mp4'')
   \<and> cleanupTempFiles (js ''t'') [\<lparr>fileName = js ''t.mp4'', fileSize = 10, unlinkable = True\<rparr>] =
       [\<lparr>fileName = js ''t.mp4'', fileSize = 10, unlinkable = True\<rparr>]
   \<and> cleanupTempFiles (js ''t'')
        [\<lparr>fileName = js ''t.part'', fileSize = 1, unlinkable = True\<rparr>,
         \<lparr>fileName = js ''t.temp'', fileSize = 0, unlinkable = False\<rparr>,
         \<lparr>fileName = js ''t.mp4'', fileSize = 10, unlinkable = True\<rparr>] =
       [\<lparr>fileName = js ''t.temp'', fileSize = 0, unlinkable = False\<rparr>,
        \<lparr>fileName = js ''t.mp4'', fileSize = 10, unlinkable = True\<rparr>]
   \<and> cleanupTempFiles (js ''t'') (cleanupTempFiles (js ''t'')
        [\<lparr>fileName = js ''t.part'', fileSize = 1, unlinkable = True\<rparr>,
         \<lparr>fileName = js ''t.temp'', fileSize = 0, unlinkable = False\<rparr>,
         \<lparr>fileName = js ''t.mp4'', fileSize = 10, unlinkable = True\<rparr>]) =
       [\<lparr>fileName = js ''t.temp'', fileSize = 0, unlinkable = False\<rparr>,
        \<lparr>fileName = js ''t.mp4'', fileSize = 10, unlinkable = True\<rparr>]
   \<and> isTempFile (js ''t'') (js ''t.part'')
   \<and> js ''t.part'' \<notin> set (readdirSync (cleanupTempFiles (js ''t'')
        [\<lparr>fileName = js ''t.part'', fileSize = 1, unlinkable = True\<rparr>,
         \<lparr>fileName = js ''t.mp4'', fileSize = 10, unlinkable = True\<rparr>]))
   \<and> isPlaylistTempFile (js ''t.part'')
   \<and> js ''t.part'' \<notin> set (readdirSync (playlistCleanup
        [\<lparr>fileName = js ''t.part'', fileSize = 1, unlinkable = True\<rparr>,
         \<lparr>fileName = js ''t.mp4'', fileSize = 10, unlinkable = True\<rparr>]))
   \<and> \<not> isPlaylistTempFile (js ''t.mp4'')
   \<and> playlistCleanup [\<lparr>fileName = js ''t.mp4'', fileSize = 10, unlinkable = True\<rparr>] =
       [\<lparr>fileName = js ''t.mp4'', fileSize = 10, unlinkable = True\<rparr>]
   \<and> distinct (readdirSync [\<lparr>fileName = js ''t.mp4'', fileSize = 10, unlinkable = True\<rparr>])
   \<and> finalCleanup (js ''t'')
        (finalCleanup (js ''t'') [\<lparr>fileName = js ''t.mp4'', fileSize = 10, unlinkable = True\<rparr>]) =
       finalCleanup (js ''t'') [\<lparr>fileName = js ''t.mp4'', fileSize = 10, unlinkable = True\<rparr>]"
proof -
  let ?m = "\<lparr>fileName = js ''t.mp4'', fileSize = 10, unlinkable = True\<rparr>"
  let ?d = "[\<lparr>fileName = js ''t.part'', fileSize = 1, unlinkable = True\<rparr>,
             \<lparr>fileName = js ''t.temp'', fileSize = 0, unlinkable = False\<rparr>, ?m]"
  let ?r = "[\<lparr>fileName = js ''t.temp'', fileSize = 0, unlinkable = False\<rparr>, ?m]"
  let ?e = "[\<lparr>fileName = js ''t.part'', fileSize = 1, unlinkable = True\<rparr>, ?m]"
  have l: "readdirSync [?m] = [js ''t.mp4'']"
    by (simp add: readdirSync_def)
  have a: "\<not> isTempFile (js ''t'') (js ''t.mp4'')"
    by (simp add: isTempFile_def endsWith_def js_def)
  have b: "\<not> isPlaylistTempFile (js ''t.mp4'')"
    by (simp add: isPlaylistTempFile_def endsWith_def js_def)
  have c: "distinct (readdirSync [?m])"
    by (simp add: readdirSync_def)
  have run: "cleanupTempFiles (js ''t'') ?d = ?r"
    by (simp add: eval_cleanup)
  from a l have a': "\<forall>file \<in> set (readdirSync [?m]). \<not> isTempFile (js ''t'') file"
    by simp
  from b l have b': "\<forall>file \<in> set (readdirSync [?m]). \<not> isPlaylistTempFile file"
    by simp
  from cleanup_pass_idempotent [of "[?m]" "js ''t''"] a' b' c
  have "cleanupTempFiles (js ''t'') [?m] = [?m]"
    and "playlistCleanup [?m] = [?m]"
    and "finalCleanup (js ''t'') (finalCleanup (js ''t'') [?m]) = finalCleanup (js ''t'') [?m]"
    by blast+
  moreover from cleanup_pass_idempotent [of ?d "js ''t''"]
  have "cleanupTempFiles (js ''t'') (cleanupTempFiles (js ''t'') ?d) = cleanupTempFiles (js ''t'') ?d"
    by blast
  then have "cleanupTempFiles (js ''t'') (cleanupTempFiles (js ''t'') ?d) = ?r"
    by (simp only: run)
  moreover have tp: "isTempFile (js ''t'') (js ''t.part'')"
    by (simp add: isTempFile_def js_def)
  moreover have pp: "isPlaylistTempFile (js ''t.part'')"
    by (simp add: isPlaylistTempFile_def js_def)
  moreover have "js ''t.part'' \<notin> set (readdirSync (cleanupTempFiles (js ''t'') ?e))"
    and "js ''t.part'' \<notin> set (readdirSync (playlistCleanup ?e))"
    using cleanup_pass_idempotent [of ?e "js ''t''"] tp pp by auto
  ultimately show ?thesis using l a b c run by blast
qed

section \<open>How an overflow of the output buffer is reported\<close>

lemma video_overflow_message:
  "getVideoInfo_catch maxBufferExceeded =
     js ''Video info too large. Try a different video or check if it's a very long video.''"
  by (simp add: getVideoInfo_catch_def maxBufferExceeded_def js_def)

lemma playlist_overflow_message:
  "getPlaylistInfo_catch maxBufferExceeded =
     js ''Playlist too large. Try a smaller playlist or individual videos.''"
  by (simp add: getPlaylistInfo_catch_def maxBufferExceeded_def js_def)

text \<open>
  C9, as the code has it. When the output of yt-dlp overflows \<^verbatim>\<open>maxBuffer\<close>,
  \<^verbatim>\<open>getVideoInfo\<close> and \<^verbatim>\<open>getPlaylistInfo\<close> throw their own messages (\<^verbatim>\<open>Video info too
  large\<close>, \<^verbatim>\<open>Playlist too large\<close>). The callbacks of the downloads do not tell failures
  apart: two of them answer with a fixed prefix followed by the message of the error, the
  other two with one fixed text for every failure.
\<close>

theorem overflow_reporting:
  "(\<not> isPlaylistUrl u
      \<and> (\<forall>e. Map_get cache u = Some e \<longrightarrow> \<not> now_check w - timestamp e < CACHE_DURATION)
      \<and> execPromise w (videoInfoCommand u) (1024 * 1024 * 10) 30000 = ExecError maxBufferExceeded
    \<longrightarrow> getVideoInfo w cache u =
          (Inl (js ''Video info too large. Try a different video or check if it's a very long video.''),
           cache, [ExecPromise (videoInfoCommand u) (1024 * 1024 * 10) 30000]))
   \<and> (getPlaylistInfo_try w u = (Inl maxBufferExceeded, fx)
    \<longrightarrow> getPlaylistInfo w u =
          (Inl (js ''Playlist too large. Try a smaller playlist or individual videos.''), fx))
   \<and> (execPromise w (playlistInfoCommand u) (1024 * 1024 * 20) 30000 = ExecError maxBufferExceeded
    \<longrightarrow> getPlaylistInfo w u =
          (Inl (js ''Playlist too large. Try a smaller playlist or individual videos.''),
           [ExecPromise (playlistInfoCommand u) (1024 * 1024 * 20) 30000]))
   \<and> videoDownloadCallback (ExecError m) False files t =
        Some (ErrorJson 500 (js ''Download failed: '' @ m))
   \<and> playlistDownloadCallback (ExecError m) False files t n =
        Some (ErrorJson 500 (js ''Playlist download failed: '' @ m))
   \<and> audioDownloadCallback (ExecError m) False files t =
        Some (ErrorJson 500 (js ''Audio download failed''))
   \<and> playlistRouteCallback (ExecError m) False t =
        Some (ErrorJson 500 (js ''Playlist download failed''))"
proof -
  have video: "getVideoInfo w cache u =
          (Inl (js ''Video info too large. Try a different video or check if it's a very long video.''),
           cache, [ExecPromise (videoInfoCommand u) (1024 * 1024 * 10) 30000])"
    if "\<not> isPlaylistUrl u"
      and miss: "\<forall>e. Map_get cache u = Some e \<longrightarrow> \<not> now_check w - timestamp e < CACHE_DURATION"
      and "execPromise w (videoInfoCommand u) (1024 * 1024 * 10) 30000 = ExecError maxBufferExceeded"
  proof -
    from that have "getVideoInfo_fetch w cache u =
        (Inl maxBufferExceeded, cache, [ExecPromise (videoInfoCommand u) (1024 * 1024 * 10) 30000])"
      by (simp add: getVideoInfo_fetch_def)
    then show ?thesis
      by (simp add: getVideoInfo_miss [OF miss] video_overflow_message)
  qed
  have playlist_try: "getPlaylistInfo w u =
          (Inl (js ''Playlist too large. Try a smaller playlist or individual videos.''), fx)"
    if "getPlaylistInfo_try w u = (Inl maxBufferExceeded, fx)" for fx
    using that by (simp add: getPlaylistInfo_def playlist_overflow_message)
  have playlist: "getPlaylistInfo w u =
          (Inl (js ''Playlist too large. Try a smaller playlist or individual videos.''),
           [ExecPromise (playlistInfoCommand u) (1024 * 1024 * 20) 30000])"
    if "execPromise w (playlistInfoCommand u) (1024 * 1024 * 20) 30000 = ExecError maxBufferExceeded"
  proof -
    from that have "getPlaylistInfo_try w u =
        (Inl maxBufferExceeded, [ExecPromise (playlistInfoCommand u) (1024 * 1024 * 20) 30000])"
      by (simp add: getPlaylistInfo_try_def)
    then show ?thesis by (rule playlist_try)
  qed
  have callbacks: "videoDownloadCallback (ExecError m) False files t =
        Some (ErrorJson 500 (js ''Download failed: '' @ m))"
    "playlistDownloadCallback (ExecError m) False files t n =
        Some (ErrorJson 500 (js ''Playlist download failed: '' @ m))"
    "audioDownloadCallback (ExecError m) False files t =
        Some (ErrorJson 500 (js ''Audio download failed''))"
    "playlistRouteCallback (ExecError m) False t =
        Some (ErrorJson 500 (js ''Playlist download failed''))"
    by (simp_all add: videoDownloadCallback_def playlistDownloadCallback_def
        audioDownloadCallback_def playlistRouteCallback_def unlessSent_def)
  from video playlist_try playlist callbacks show ?thesis by blast
qed

text \<open>A world in which every command overflows.\<close>

theorem overflow_reporting_witness:
  "\<not> isPlaylistUrl (js ''https://youtu.be/x'')
   \<and> execPromise (exampleWorld 0 0 (ExecError maxBufferExceeded))
        (videoInfoCommand (js ''https://youtu.be/x'')) (1024 * 1024 * 10) 30000 =
      ExecError maxBufferExceeded
   \<and> getVideoInfo (exampleWorld 0 0 (ExecError maxBufferExceeded)) [] (js ''https://youtu.be/x'') =
      (Inl (js ''Video info too large. Try a different video or check if it's a very long video.''),
       [], [ExecPromise (videoInfoCommand (js ''https://youtu.be/x'')) (1024 * 1024 * 10) 30000])
   \<and> getPlaylistInfo (exampleWorld 0 0 (ExecError maxBufferExceeded)) (js ''https://youtu.be/x'') =
      (Inl (js ''Playlist too large. Try a smaller playlist or individual videos.''),
       [ExecPromise (playlistInfoCommand (js ''https://youtu.be/x'')) (1024 * 1024 * 20) 30000])"
proof -
  let ?w = "exampleWorld 0 0 (ExecError maxBufferExceeded)"
  let ?u = "js ''https://youtu.be/x''"
  have np: "\<not> isPlaylistUrl ?u"
    by (simp add: isPlaylistUrl_def js_def)
  have miss: "\<forall>e. Map_get [] ?u = Some e \<longrightarrow> \<not> now_check ?w - timestamp e < CACHE_DURATION"
    by (simp add: Map_get_def)
  have ex: "execPromise ?w (videoInfoCommand ?u) (1024 * 1024 * 10) 30000 = ExecError maxBufferExceeded"
    by (simp add: exampleWorld_def)
  have ex2: "execPromise ?w (playlistInfoCommand ?u) (1024 * 1024 * 20) 30000 = ExecError maxBufferExceeded"
    by (simp add: exampleWorld_def)
  have listing: "getPlaylistInfo_try ?w ?u =
      (Inl maxBufferExceeded, [ExecPromise (playlistInfoCommand ?u) (1024 * 1024 * 20) 30000])"
    using ex2 by (simp add: getPlaylistInfo_try_def)
  from overflow_reporting [of ?u "[]" ?w "[ExecPromise (playlistInfoCommand ?u) (1024 * 1024 * 20) 30000]"]
    np miss ex ex2 listing
  show ?thesis by blast
qed

text \<open>
  C9 as stated fails for downloads: the audio callback answers an overflow with the very
  response it gives to a command that failed, and the video callback wraps the overflow in
  the same \<^verbatim>\<open>Download failed: \<close> as any other error.
\<close>

theorem download_overflow_not_distinct:
  "audioDownloadCallback (ExecError maxBufferExceeded) False [] (js ''t'') =
     audioDownloadCallback (ExecError (commandFailed (js ''yt-dlp''))) False [] (js ''t'')
   \<and> audioDownloadCallback (ExecError maxBufferExceeded) False [] (js ''t'') =
     Some (ErrorJson 500 (js ''Audio download failed''))
   \<and> videoDownloadCallback (ExecError maxBufferExceeded) False [] (js ''t'') =
     Some (ErrorJson 500 (js ''Download failed: stdout maxBuffer length exceeded''))
   \<and> videoDownloadCallback (ExecError (commandFailed (js ''yt-dlp''))) False [] (js ''t'') =
     Some (ErrorJson 500 (js ''Download failed: Command failed: yt-dlp''))"
  by (simp add: audioDownloadCallback_def videoDownloadCallback_def unlessSent_def
      maxBufferExceeded_def commandFailed_def js_def)

section \<open>The kill timers of the downloads\<close>

lemma startVideoDownload_spawned:
  assumes "startVideoDownload selector maxBuffer w cache body u = (None, c, fx)"
  shows "\<exists>fx0 command. fx = fx0 @ [ExecCallback command (Some maxBuffer), KillTimer 600000]"
  using assms
  by (auto simp: startVideoDownload_def Let_def split: prod.splits sum.splits)

lemma handlePlaylistDownload_spawned:
  assumes "handlePlaylistDownload w cache body u = (None, c, fx)"
  shows "\<exists>fx0 command. fx = fx0 @ [ExecCallback command (Some (1024 * 1024 * 200)), KillTimer 1800000]"
proof -
  obtain r fx1 where g: "getPlaylistInfo w u = (r, fx1)" by (cases "getPlaylistInfo w u") auto
  show ?thesis
  proof (cases r)
    case (Inl m)
    with g assms show ?thesis by (simp add: handlePlaylistDownload_def)
  next
    case (Inr info)
    with g assms have "\<exists>mk command.
        fx = (fx1 @ mk) @ [ExecCallback command (Some (1024 * 1024 * 200)), KillTimer 1800000]"
      by (simp add: handlePlaylistDownload_def Let_def) blast
    then show ?thesis by blast
  qed
qed

lemma killTimerCallback_running:
  assumes "running child" and "\<not> killed child"
  shows "killTimerCallback msg child headersSent =
           (child\<lparr>killed := True, running := \<not> endsOnSigterm child\<rparr>,
            if headersSent then None else Some (ErrorJson 500 msg))"
  using assms by (simp add: killTimerCallback_def kill_def unlessSent_def)

text \<open>
  C7. \<^verbatim>\<open>/api/download/video\<close> and \<^verbatim>\<open>handleVideoDownload\<close>, once they have spawned the
  download, arm a timer of 600000 ms, and \<^verbatim>\<open>handlePlaylistDownload\<close> one of 1800000 ms.
  When the timer fires on a child that is running and on which \<^verbatim>\<open>kill()\<close> has not been
  called, the callback calls \<^verbatim>\<open>kill()\<close> whether or not a response has been sent, and
  answers 500 with the timeout message exactly when no response has been sent yet. The
  child is then marked killed, and it is no longer running if it ends on SIGTERM.
\<close>

theorem kill_timer_on_timeout:
  "(api_download_video w cache body = (None, c, fx) \<longrightarrow>
      (\<exists>fx0 command. fx = fx0 @ [ExecCallback command (Some (1024 * 1024 * 100)), KillTimer 600000]))
   \<and> (handleVideoDownload w cache body u = (None, c, fx) \<longrightarrow>
      (\<exists>fx0 command. fx = fx0 @ [ExecCallback command (Some (1024 * 1024 * 10)), KillTimer 600000]))
   \<and> (handlePlaylistDownload w cache body u = (None, c, fx) \<longrightarrow>
      (\<exists>fx0 command. fx = fx0 @ [ExecCallback command (Some (1024 * 1024 * 200)), KillTimer 1800000]))
   \<and> (running child \<and> \<not> killed child \<longrightarrow>
        videoKillTimer child headersSent =
          (child\<lparr>killed := True, running := \<not> endsOnSigterm child\<rparr>,
           if headersSent then None
           else Some (ErrorJson 500 (js ''Download timeout after 10 minutes'')))
        \<and> playlistKillTimer child headersSent =
          (child\<lparr>killed := True, running := \<not> endsOnSigterm child\<rparr>,
           if headersSent then None
           else Some (ErrorJson 500 (js ''Playlist download timeout after 30 minutes'')))
        \<and> killed (fst (videoKillTimer child headersSent))
        \<and> killed (fst (playlistKillTimer child headersSent))
        \<and> (endsOnSigterm child \<longrightarrow>
              \<not> running (fst (videoKillTimer child headersSent))
              \<and> \<not> running (fst (playlistKillTimer child headersSent))))"
proof -
  have v: "api_download_video w cache body = (None, c, fx) \<longrightarrow>
      (\<exists>fx0 command. fx = fx0 @ [ExecCallback command (Some (1024 * 1024 * 100)), KillTimer 600000])"
  proof
    assume a: "api_download_video w cache body = (None, c, fx)"
    then obtain url where "startVideoDownload formatSelector (1024 * 1024 * 100) w cache body url = (None, c, fx)"
      by (auto simp: api_download_video_def withUrl_def split: option.splits if_splits)
    then show "\<exists>fx0 command. fx = fx0 @ [ExecCallback command (Some (1024 * 1024 * 100)), KillTimer 600000]"
      by (rule startVideoDownload_spawned)
  qed
  have h: "handleVideoDownload w cache body u = (None, c, fx) \<longrightarrow>
      (\<exists>fx0 command. fx = fx0 @ [ExecCallback command (Some (1024 * 1024 * 10)), KillTimer 600000])"
    unfolding handleVideoDownload_def using startVideoDownload_spawned by blast
  have p: "handlePlaylistDownload w cache body u = (None, c, fx) \<longrightarrow>
      (\<exists>fx0 command. fx = fx0 @ [ExecCallback command (Some (1024 * 1024 * 200)), KillTimer 1800000])"
    using handlePlaylistDownload_spawned by blast
  have t: "videoKillTimer child headersSent =
          (child\<lparr>killed := True, running := \<not> endsOnSigterm child\<rparr>,
           if headersSent then None
           else Some (ErrorJson 500 (js ''Download timeout after 10 minutes'')))
        \<and> playlistKillTimer child headersSent =
          (child\<lparr>killed := True, running := \<not> endsOnSigterm child\<rparr>,
           if headersSent then None
           else Some (ErrorJson 500 (js ''Playlist download timeout after 30 minutes'')))
        \<and> killed (fst (videoKillTimer child headersSent))
        \<and> killed (fst (playlistKillTimer child headersSent))
        \<and> (endsOnSigterm child \<longrightarrow>
              \<not> running (fst (videoKillTimer child headersSent))
              \<and> \<not> running (fst (playlistKillTimer child headersSent)))"
    if "running child" "\<not> killed child"
    using that by (simp add: videoKillTimer_def playlistKillTimer_def killTimerCallback_running)
  from v h p t show ?thesis by blast
qed

text \<open>The definitions a handler unfolds to in the example world.\<close>

lemmas eval_handler =
  getVideoInfo_def getVideoInfo_fetch_def getVideoInfo_parse_def getVideoInfo_catch_def
  getPlaylistInfo_def getPlaylistInfo_try_def getPlaylistInfo_title_def parsePlaylistEntries_def
  List.map_filter_def
  exampleWorld_def Map_get_def isPlaylistUrl_def trim_def js_def Let_def
  isWhiteSpace_def isWordChar_def CACHE_DURATION_def withUrl_def orDefault_def sanitizedTitleOf_def
  sanitizeFilename_def removeDisallowed_def inSanitizeClass_def

text \<open>The three handlers on a video of the example world, and the two timers on a child
  that ends on SIGTERM, after a response and before one.\<close>

theorem kill_timer_on_timeout_witness:
  \<open>fst (api_download_video (exampleWorld 0 0 (ExecOk (js ''{"title":"A"}'') [])) []
          \<lparr>body_url = Some (js ''https://youtu.be/x''), body_quality = None, body_type = None\<rparr>) = None
   \<and> (\<exists>fx0 command.
        snd (snd (api_download_video (exampleWorld 0 0 (ExecOk (js ''{"title":"A"}'') [])) []
          \<lparr>body_url = Some (js ''https://youtu.be/x''), body_quality = None, body_type = None\<rparr>)) =
        fx0 @ [ExecCallback command (Some (1024 * 1024 * 100)), KillTimer 600000])
   \<and> fst (handleVideoDownload (exampleWorld 0 0 (ExecOk (js ''{"title":"A"}'') [])) []
          \<lparr>body_url = Some (js ''https://youtu.be/x''), body_quality = None, body_type = None\<rparr>
          (js ''https://youtu.be/x'')) = None
   \<and> (\<exists>fx0 command.
        snd (snd (handleVideoDownload (exampleWorld 0 0 (ExecOk (js ''{"title":"A"}'') [])) []
          \<lparr>body_url = Some (js ''https://youtu.be/x''), body_quality = None, body_type = None\<rparr>
          (js ''https://youtu.be/x''))) =
        fx0 @ [ExecCallback command (Some (1024 * 1024 * 10)), KillTimer 600000])
   \<and> fst (handlePlaylistDownload (exampleWorld 0 0 (ExecOk (js ''{"title":"A"}'') [])) []
          \<lparr>body_url = Some (js ''https://youtu.be/x''), body_quality = None, body_type = None\<rparr>
          (js ''https://youtu.be/x'')) = None
   \<and> (\<exists>fx0 command.
        snd (snd (handlePlaylistDownload (exampleWorld 0 0 (ExecOk (js ''{"title":"A"}'') [])) []
          \<lparr>body_url = Some (js ''https://youtu.be/x''), body_quality = None, body_type = None\<rparr>
          (js ''https://youtu.be/x''))) =
        fx0 @ [ExecCallback command (Some (1024 * 1024 * 200)), KillTimer 1800000])
   \<and> running \<lparr>running = True, killed = False, endsOnSigterm = True\<rparr>
   \<and> \<not> killed \<lparr>running = True, killed = False, endsOnSigterm = True\<rparr>
   \<and> videoKillTimer \<lparr>running = True, killed = False, endsOnSigterm = True\<rparr> True =
       (\<lparr>running = False, killed = True, endsOnSigterm = True\<rparr>, None)
   \<and> videoKillTimer \<lparr>running = True, killed = False, endsOnSigterm = True\<rparr> False =
       (\<lparr>running = False, killed = True, endsOnSigterm = True\<rparr>,
        Some (ErrorJson 500 (js ''Download timeout after 10 minutes'')))
   \<and> playlistKillTimer \<lparr>running = True, killed = False, endsOnSigterm = True\<rparr> False =
       (\<lparr>running = False, killed = True, endsOnSigterm = True\<rparr>,
        Some (ErrorJson 500 (js ''Playlist download timeout after 30 minutes'')))
   \<and> \<not> running (fst (playlistKillTimer \<lparr>running = True, killed = False, endsOnSigterm = True\<rparr> True))\<close>
proof -
  let ?w = \<open>exampleWorld 0 0 (ExecOk (js ''{"title":"A"}'') [])\<close>
  let ?u = "js ''https://youtu.be/x''"
  let ?b = "\<lparr>body_url = Some ?u, body_quality = None, body_type = None\<rparr>"
  let ?c = "\<lparr>running = True, killed = False, endsOnSigterm = True\<rparr>"
  let ?v = "api_download_video ?w [] ?b"
  let ?h = "handleVideoDownload ?w [] ?b ?u"
  let ?p = "handlePlaylistDownload ?w [] ?b ?u"
  have v: "fst ?v = None"
    by (simp add: api_download_video_def startVideoDownload_def eval_handler)
  have h: "fst ?h = None"
    by (simp add: handleVideoDownload_def startVideoDownload_def eval_handler)
  have p: "fst ?p = None"
    by (simp add: handlePlaylistDownload_def eval_handler)
  from v have v': "?v = (None, fst (snd ?v), snd (snd ?v))" by (metis prod.collapse)
  from h have h': "?h = (None, fst (snd ?h), snd (snd ?h))" by (metis prod.collapse)
  from p have p': "?p = (None, fst (snd ?p), snd (snd ?p))" by (metis prod.collapse)
  have r: "running ?c" and k: "\<not> killed ?c" and e: "endsOnSigterm ?c" by simp_all
  from kill_timer_on_timeout [of ?w "[]" ?b "fst (snd ?v)" "snd (snd ?v)" ?u ?c True] v'
  have spawned: "\<exists>fx0 command. snd (snd ?v) =
        fx0 @ [ExecCallback command (Some (1024 * 1024 * 100)), KillTimer 600000]"
    by blast
  from kill_timer_on_timeout [of ?w "[]" ?b "fst (snd ?h)" "snd (snd ?h)" ?u ?c True] h'
  have spawned_h: "\<exists>fx0 command. snd (snd ?h) =
        fx0 @ [ExecCallback command (Some (1024 * 1024 * 10)), KillTimer 600000]"
    by blast
  from kill_timer_on_timeout [of ?w "[]" ?b "fst (snd ?p)" "snd (snd ?p)" ?u ?c True] p'
  have spawned_p: "\<exists>fx0 command. snd (snd ?p) =
        fx0 @ [ExecCallback command (Some (1024 * 1024 * 200)), KillTimer 1800000]"
    by blast
  from kill_timer_on_timeout [of ?w "[]" ?b "fst (snd ?v)" "snd (snd ?v)" ?u ?c True] r k e
  have sent: "videoKillTimer ?c True = (?c\<lparr>killed := True, running := \<not> endsOnSigterm ?c\<rparr>, None)"
    and gone: "\<not> running (fst (playlistKillTimer ?c True))"
    by simp_all
  from kill_timer_on_timeout [of ?w "[]" ?b "fst (snd ?v)" "snd (snd ?v)" ?u ?c False] r k
  have unsent: "videoKillTimer ?c False =
      (?c\<lparr>killed := True, running := \<not> endsOnSigterm ?c\<rparr>,
       Some (ErrorJson 500 (js ''Download timeout after 10 minutes'')))"
    and unsent_p: "playlistKillTimer ?c False =
      (?c\<lparr>killed := True, running := \<not> endsOnSigterm ?c\<rparr>,
       Some (ErrorJson 500 (js ''Playlist download timeout after 30 minutes'')))"
    by simp_all
  from v spawned h spawned_h p spawned_p r k sent unsent unsent_p gone show ?thesis by simp
qed

text \<open>
  \<^verbatim>\<open>handleAudioDownload\<close> and \<^verbatim>\<open>/api/download/playlist\<close> start their download and arm no
  timer: the \<^verbatim>\<open>exec\<close> is the last effect. And a child that does not end on SIGTERM is
  still running after the callback of the timer.
\<close>

theorem download_without_kill_timer:
  \<open>fst (handleAudioDownload (exampleWorld 0 0 (ExecOk (js ''{"title":"A"}'') [])) []
          \<lparr>body_url = Some (js ''https://youtu.be/x''), body_quality = None, body_type = None\<rparr>
          (js ''https://youtu.be/x'')) = None
   \<and> snd (snd (handleAudioDownload (exampleWorld 0 0 (ExecOk (js ''{"title":"A"}'') [])) []
          \<lparr>body_url = Some (js ''https://youtu.be/x''), body_quality = None, body_type = None\<rparr>
          (js ''https://youtu.be/x''))) =
       [ExecPromise (videoInfoCommand (js ''https://youtu.be/x'')) (1024 * 1024 * 10) 30000,
        ExecCallback (audioDownloadCommand (js ''/home/user/Downloads/A.%(ext)s'')
                        (js ''https://youtu.be/x'')) None]
   \<and> fst (api_download_playlist (exampleWorld 0 0 (ExecOk (js ''{"title":"A"}'') [])) []
          \<lparr>body_url = Some (js ''https://youtu.be/x''), body_quality = None, body_type = None\<rparr>) = None
   \<and> snd (snd (api_download_playlist (exampleWorld 0 0 (ExecOk (js ''{"title":"A"}'') [])) []
          \<lparr>body_url = Some (js ''https://youtu.be/x''), body_quality = None, body_type = None\<rparr>)) =
       [ExecPromise (playlistInfoCommand (js ''https://youtu.be/x'')) (1024 * 1024 * 20) 30000,
        ExecPromise (playlistTitleCommand (js ''https://youtu.be/x'')) (1024 * 1024 * 2) 15000,
        MkdirSync (js ''/home/user/Downloads/titleA''),
        ExecCallback (playlistRouteCommand (js ''best[ext=mp4]/best'')
                        (js ''/home/user/Downloads/titleA/%(title)s.%(ext)s'')
                        (js ''https://youtu.be/x'')) None]
   \<and> running (fst (videoKillTimer \<lparr>running = True, killed = False, endsOnSigterm = False\<rparr> False))\<close>
  by (simp add: handleAudioDownload_def api_download_playlist_def eval_handler
      formatSelector_playlistRoute_def videoKillTimer_def killTimerCallback_def kill_def)

end
